theory Spec2Isabelle
  imports Main "HOL-Library.Word"
begin

section \<open>The object storage driver: errors\<close>

text \<open>
  A Go \<open>error\<close> is an interface value: \<open>nil\<close>, or an error that may wrap another one
  (\<open>Unwrap\<close>). The driver only looks at an error through \<open>errors.Is\<close>, \<open>errors.As\<close>,
  \<open>status.FromError\<close> and \<open>==\<close>, so an error is modelled as its chain of nodes, outermost
  first, and \<open>nil\<close> as \<open>None\<close>.
\<close>

type_synonym int64 = "64 word"

datatype err_node =
    StorageErrObjectNotExist    \<comment> \<open>the sentinel \<open>storage.ErrObjectNotExist\<close>\<close>
  | IteratorDone                \<comment> \<open>the sentinel \<open>iterator.Done\<close>\<close>
  | GoogleapiError int          \<comment> \<open>a \<open>*googleapi.Error\<close> with its HTTP \<open>Code\<close>\<close>
  | GRPCStatusError nat         \<comment> \<open>an error with a \<open>GRPCStatus()\<close> method, and its status code\<close>
  | TypesErrObjectNotExist      \<comment> \<open>the sentinel \<open>types.ErrObjectNotExist\<close>\<close>
  | TypesErrPreconditionFailed  \<comment> \<open>the sentinel \<open>types.ErrPreconditionFailed\<close>\<close>
  | OtherError string           \<comment> \<open>any other error, with its message\<close>

datatype go_error = Leaf err_node | Wrap err_node go_error

fun chain :: "go_error \<Rightarrow> err_node list" where
  "chain (Leaf k) = [k]"
| "chain (Wrap k e) = k # chain e"

text \<open>\<open>errors.Is(err, target)\<close> for a sentinel target: some error of the chain is the target.\<close>

definition errors_Is :: "go_error \<Rightarrow> err_node \<Rightarrow> bool" where
  "errors_Is err target = (target \<in> set (chain err))"

text \<open>
  \<open>errors.As(err, &e)\<close> with \<open>e\<close> a \<open>*googleapi.Error\<close>: the first error of the chain of
  that type; the model returns its \<open>Code\<close>.
\<close>

fun first_googleapi :: "err_node list \<Rightarrow> int option" where
  "first_googleapi [] = None"
| "first_googleapi (GoogleapiError c # ks) = Some c"
| "first_googleapi (k # ks) = first_googleapi ks"

definition errors_As_googleapi :: "go_error \<Rightarrow> int option" where
  "errors_As_googleapi err = first_googleapi (chain err)"

text \<open>The gRPC status codes and the HTTP status the driver compares with.\<close>

definition codes_Unknown :: nat where "codes_Unknown = 2"
definition codes_AlreadyExists :: nat where "codes_AlreadyExists = 6"
definition codes_FailedPrecondition :: nat where "codes_FailedPrecondition = 9"
definition http_StatusPreconditionFailed :: int where "http_StatusPreconditionFailed = 412"

text \<open>
  \<open>status.FromError(err)\<close> on a non-nil error: the status of the first error of the chain
  that has one, with \<open>ok = true\<close>; a status of code \<open>Unknown\<close> and \<open>ok = false\<close> when the
  chain has none. The model returns the status's code and \<open>ok\<close>.
\<close>

fun first_grpc :: "err_node list \<Rightarrow> nat option" where
  "first_grpc [] = None"
| "first_grpc (GRPCStatusError c # ks) = Some c"
| "first_grpc (k # ks) = first_grpc ks"

definition status_FromError :: "go_error \<Rightarrow> nat \<times> bool" where
  "status_FromError err =
     (case first_grpc (chain err) of
        Some c \<Rightarrow> (c, True)
      | None \<Rightarrow> (codes_Unknown, False))"

text \<open>
  \<open>mapErr\<close>, case by case as the source has it. The condition on the gRPC status is
  \<open>ok && s.Code() == codes.AlreadyExists || s.Code() == codes.FailedPrecondition\<close>, where
  \<open>&&\<close> binds tighter than \<open>||\<close>.
\<close>

definition mapErr :: "go_error option \<Rightarrow> go_error option" where
  "mapErr err =
     (case err of
        None \<Rightarrow> None
      | Some e \<Rightarrow>
          if errors_Is e StorageErrObjectNotExist then Some (Leaf TypesErrObjectNotExist)
          else if (case errors_As_googleapi e of
                     Some c \<Rightarrow> c = http_StatusPreconditionFailed
                   | None \<Rightarrow> False)
          then Some (Leaf TypesErrPreconditionFailed)
          else if (case status_FromError e of
                     (s, ok) \<Rightarrow> (ok \<and> s = codes_AlreadyExists) \<or> s = codes_FailedPrecondition)
          then Some (Leaf TypesErrPreconditionFailed)
          else Some e)"

text \<open>
  The conditions of the error taxonomy, in the specification's words: a backend
  object-not-exist condition, and a backend precondition or already-exists signal
  (HTTP 412, gRPC AlreadyExists or FailedPrecondition).
\<close>

definition object_not_exist_condition :: "go_error \<Rightarrow> bool" where
  "object_not_exist_condition e = errors_Is e StorageErrObjectNotExist"

definition precondition_signal :: "go_error \<Rightarrow> bool" where
  "precondition_signal e =
     (errors_As_googleapi e = Some 412
      \<or> (case first_grpc (chain e) of Some c \<Rightarrow> c = 6 \<or> c = 9 | None \<Rightarrow> False))"

section \<open>Version tokens: \<open>strconv.ParseInt\<close> and \<open>strconv.FormatInt\<close>\<close>

text \<open>
  The driver reads a version token with \<open>strconv.ParseInt(s, 10, 64)\<close> and writes one with
  \<open>strconv.FormatInt(i, 10)\<close>. In base 10 \<open>ParseInt\<close> accepts one optional sign and then
  one or more decimal digits, and fails when the value is outside the 64-bit signed range;
  the model returns \<open>None\<close> where \<open>ParseInt\<close> returns a non-nil error.
\<close>

definition is_digit :: "char \<Rightarrow> bool" where
  "is_digit c = (48 \<le> (of_char c :: nat) \<and> (of_char c :: nat) \<le> 57)"

definition digit_val :: "char \<Rightarrow> nat" where
  "digit_val c = of_char c - 48"

definition digit_char :: "nat \<Rightarrow> char" where
  "digit_char d = ''0123456789'' ! d"

fun digits_val :: "nat \<Rightarrow> string \<Rightarrow> nat option" where
  "digits_val acc [] = Some acc"
| "digits_val acc (c # cs) =
     (if is_digit c then digits_val (acc * 10 + digit_val c) cs else None)"

text \<open>
  \<open>ParseUint\<close> on the part after the sign. Its own range error (a value above
  \<open>2^64 - 1\<close>) is always a range error of \<open>ParseInt\<close> too, so the value is kept as a
  natural number and \<open>ParseInt\<close> does the one comparison.
\<close>

definition ParseUint :: "string \<Rightarrow> nat option" where
  "ParseUint s = (if s = [] then None else digits_val 0 s)"

definition ParseInt :: "string \<Rightarrow> int64 option" where
  "ParseInt s =
     (case s of
        [] \<Rightarrow> None
      | c # cs \<Rightarrow>
          let neg = (c = CHR ''-'');
              s' = (if c = CHR ''+'' \<or> c = CHR ''-'' then cs else s)
          in case ParseUint s' of
               None \<Rightarrow> None
             | Some un \<Rightarrow>
                 if \<not> neg \<and> un \<ge> 2 ^ 63 then None
                 else if neg \<and> un > 2 ^ 63 then None
                 else Some (if neg then - of_nat un else of_nat un))"

function digits_of :: "nat \<Rightarrow> string" where
  "digits_of n =
     (if n < 10 then [digit_char n] else digits_of (n div 10) @ [digit_char (n mod 10)])"
  by pat_completeness auto
termination
  by (relation "measure id") auto

definition FormatInt :: "int64 \<Rightarrow> string" where
  "FormatInt i =
     (if sint i < 0 then CHR ''-'' # digits_of (nat (- sint i))
      else digits_of (nat (sint i)))"

section \<open>The backend's objects and the driver's results\<close>

text \<open>
  The vendor SDK is outside the repository. Its object handle is a value that
  \<open>Generation\<close> and \<open>If\<close> copy with one field set. As in the SDK, the handle that
  \<open>Object\<close> returns has the generation \<open>-1\<close>, \<open>Generation\<close> stores the number it is
  given, whatever its sign, and a request carries a generation only when the handle's is
  not negative: a handle with a negative generation names the live version.
  \<open>oh_conds = None\<close> until \<open>If\<close> is called.
\<close>

record Conditions =
  DoesNotExist :: bool

record BucketHandle =
  bh_name :: string

record ObjectHandle =
  oh_bucket :: string
  oh_object :: string
  oh_gen :: int64
  oh_conds :: "Conditions option"

definition bh_Object :: "BucketHandle \<Rightarrow> string \<Rightarrow> ObjectHandle" where
  "bh_Object h name = \<lparr>oh_bucket = bh_name h, oh_object = name, oh_gen = - 1, oh_conds = None\<rparr>"

definition oh_Generation :: "ObjectHandle \<Rightarrow> int64 \<Rightarrow> ObjectHandle" where
  "oh_Generation obj gen = obj\<lparr>oh_gen := gen\<rparr>"

text \<open>The generation a request on the handle carries: \<open>None\<close> is the live version.\<close>

definition sent_generation :: "ObjectHandle \<Rightarrow> int64 option" where
  "sent_generation obj = (if 0 \<le> sint (oh_gen obj) then Some (oh_gen obj) else None)"

definition oh_If :: "ObjectHandle \<Rightarrow> Conditions \<Rightarrow> ObjectHandle" where
  "oh_If obj conds = obj\<lparr>oh_conds := Some conds\<rparr>"

text \<open>\<open>storage.ObjectAttrs\<close>, with the fields the driver reads.\<close>

record storage_ObjectAttrs =
  Name :: string
  Generation :: int64
  ContentType :: string
  Size :: int64
  Etag :: string

text \<open>
  Modelled from the spec: the package \<open>types\<close> (\<open>ObjectAttrs\<close>, \<open>ListEntry\<close>,
  \<open>UploadAttrs\<close>, the data of each operation) is not among the sources; the records have
  the fields the driver and the options read and write, as section 3 of the specification
  describes them. The context \<open>Ctx\<close> of each operation is handed to the backend as it is
  and is left out.
\<close>

record types_ObjectAttrs =
  Object :: string
  Version :: string
  ContentType :: string
  Size :: int64
  ETag :: string

record ListEntry =
  Object :: string
  Size :: int64
  ETag :: string

record types_UploadAttrs =
  ContentType :: string

record Preconditions =
  NotExists :: bool

record DownloadData =
  Object :: string
  Version :: string

record RemoveData =
  Object :: string
  Version :: string

record AttrsData =
  Object :: string
  Version :: string

record UploadData =
  Object :: string
  Attrs :: types_UploadAttrs
  Pre :: Preconditions


definition mapAttrs :: "storage_ObjectAttrs option \<Rightarrow> types_ObjectAttrs option" where
  "mapAttrs attrs =
     (case attrs of
        None \<Rightarrow> None
      | Some a \<Rightarrow>
          Some \<lparr>types_ObjectAttrs.Object = Name a,
                types_ObjectAttrs.Version = FormatInt (Generation a),
                types_ObjectAttrs.ContentType = storage_ObjectAttrs.ContentType a,
                types_ObjectAttrs.Size = storage_ObjectAttrs.Size a,
                types_ObjectAttrs.ETag = Etag a\<rparr>)"


section \<open>The bucket's operations\<close>

text \<open>
  The driver's \<open>bucket\<close>: the client (named by its number, see the Manager below), the
  bucket's configuration and the SDK's bucket handle.
\<close>

record BucketCfg =
  CloudName :: string

record bucket =
  b_client :: nat
  b_cfg :: BucketCfg
  b_handle :: BucketHandle

text \<open>
  \<open>Download\<close>, \<open>Remove\<close> and \<open>Attrs\<close> build the object handle and call the backend on it.
  The backend's call (\<open>NewReader\<close>, \<open>Delete\<close>, \<open>Attrs\<close> of the SDK) is the parameter
  \<open>be\<close>: what the backend answers for a handle.
\<close>

definition Download ::
  "(ObjectHandle \<Rightarrow> 'r option \<times> go_error option) \<Rightarrow> bucket \<Rightarrow> DownloadData
    \<Rightarrow> 'r option \<times> go_error option" where
  "Download be b data =
     (let obj = bh_Object (b_handle b) (DownloadData.Object data);
          obj = (if DownloadData.Version data \<noteq> [] then
                   (case ParseInt (DownloadData.Version data) of
                      Some gen \<Rightarrow> oh_Generation obj gen
                    | None \<Rightarrow> obj)
                 else obj)
      in case be obj of (r, err) \<Rightarrow> (r, mapErr err))"

definition Remove ::
  "(ObjectHandle \<Rightarrow> go_error option) \<Rightarrow> bucket \<Rightarrow> RemoveData \<Rightarrow> go_error option" where
  "Remove be b data =
     (let obj = bh_Object (b_handle b) (RemoveData.Object data);
          obj = (if RemoveData.Version data \<noteq> [] then
                   (case ParseInt (RemoveData.Version data) of
                      Some gen \<Rightarrow> oh_Generation obj gen
                    | None \<Rightarrow> obj)
                 else obj)
      in mapErr (be obj))"

definition Attrs_op ::
  "(ObjectHandle \<Rightarrow> storage_ObjectAttrs option \<times> go_error option) \<Rightarrow> bucket \<Rightarrow> AttrsData
    \<Rightarrow> types_ObjectAttrs option \<times> go_error option" where
  "Attrs_op be b data =
     (let obj = bh_Object (b_handle b) (AttrsData.Object data);
          obj = (if AttrsData.Version data \<noteq> [] then
                   (case ParseInt (AttrsData.Version data) of
                      Some gen \<Rightarrow> oh_Generation obj gen
                    | None \<Rightarrow> obj)
                 else obj)
      in case be obj of (resp, err) \<Rightarrow> (mapAttrs resp, mapErr err))"

text \<open>
  The handle the three operations call the backend on, for a bucket handle, an object name
  and a version string; \<open>Download\<close>, \<open>Remove\<close> and \<open>Attrs\<close> are proved below to use it.
\<close>

definition versioned :: "BucketHandle \<Rightarrow> string \<Rightarrow> string \<Rightarrow> ObjectHandle" where
  "versioned h object v =
     (if v \<noteq> [] then
        (case ParseInt v of
           Some gen \<Rightarrow> oh_Generation (bh_Object h object) gen
         | None \<Rightarrow> bh_Object h object)
      else bh_Object h object)"

text \<open>
  \<open>Upload\<close> conditions the handle, opens the SDK's writer on it and sets the content type;
  it returns the uploader and a nil error. A \<open>Writer\<close> keeps the handle it was opened on,
  its \<open>ContentType\<close> and the bytes it has accepted so far. The cancelable context the
  writer is opened with, and \<open>Abort\<close>, which cancels it, are left out.
\<close>

record Writer =
  w_obj :: ObjectHandle
  w_ContentType :: string
  w_sent :: "8 word list"

record uploader =
  u_w :: Writer

definition oh_NewWriter :: "ObjectHandle \<Rightarrow> Writer" where
  "oh_NewWriter obj = \<lparr>w_obj = obj, w_ContentType = [], w_sent = []\<rparr>"

definition Upload :: "bucket \<Rightarrow> UploadData \<Rightarrow> uploader option \<times> go_error option" where
  "Upload b data =
     (let obj = bh_Object (b_handle b) (UploadData.Object data);
          obj = (if NotExists (Pre data) then oh_If obj \<lparr>DoesNotExist = True\<rparr> else obj);
          w = oh_NewWriter obj;
          w = w\<lparr>w_ContentType := types_UploadAttrs.ContentType (Attrs data)\<rparr>;
          u = \<lparr>u_w = w\<rparr>
      in (Some u, None))"

text \<open>
  \<open>Write\<close> and \<open>Complete\<close> call the SDK's writer: \<open>sdk_Write w p\<close> is the count and the
  error \<open>w.Write(p)\<close> returns, \<open>sdk_Close w\<close> the error \<open>w.Close()\<close> returns together
  with what \<open>w.Attrs()\<close> returns after it.
\<close>

definition uploader_Write ::
  "(Writer \<Rightarrow> 8 word list \<Rightarrow> nat \<times> go_error option) \<Rightarrow> uploader \<Rightarrow> 8 word list
    \<Rightarrow> (nat \<times> go_error option) \<times> uploader" where
  "uploader_Write sdk_Write u p =
     (case sdk_Write (u_w u) p of
        (n, err) \<Rightarrow>
          ((n, mapErr err), u\<lparr>u_w := (u_w u)\<lparr>w_sent := w_sent (u_w u) @ take n p\<rparr>\<rparr>))"

definition uploader_Complete ::
  "(Writer \<Rightarrow> go_error option \<times> storage_ObjectAttrs option) \<Rightarrow> uploader
    \<Rightarrow> types_ObjectAttrs option \<times> go_error option" where
  "uploader_Complete sdk_Close u =
     (case sdk_Close (u_w u) of
        (Some err, attrs) \<Rightarrow> (None, mapErr (Some err))
      | (None, attrs) \<Rightarrow> (mapAttrs attrs, None))"

text \<open>
  A backend that keeps the current attributes of each object by name and honours
  \<open>DoesNotExist\<close>: closing a writer whose handle carries the condition, on a name that
  exists, answers HTTP 412 and commits nothing; any other close commits the object under
  the generation \<open>gen\<close>.
\<close>

definition store_Close ::
  "(string \<rightharpoonup> storage_ObjectAttrs) \<Rightarrow> int64 \<Rightarrow> Writer
    \<Rightarrow> (go_error option \<times> storage_ObjectAttrs option) \<times> (string \<rightharpoonup> storage_ObjectAttrs)" where
  "store_Close store gen w =
     (if oh_conds (w_obj w) = Some \<lparr>DoesNotExist = True\<rparr> \<and> store (oh_object (w_obj w)) \<noteq> None
      then ((Some (Leaf (GoogleapiError 412)), None), store)
      else
        (let a = \<lparr>Name = oh_object (w_obj w), Generation = gen,
                   ContentType = w_ContentType w, Size = of_nat (length (w_sent w)),
                   Etag = []\<rparr>
         in ((None, Some a), store(oh_object (w_obj w) \<mapsto> a))))"

section \<open>Listing\<close>









section \<open>The Manager and its client cache\<close>

text \<open>
  The cache is a Go map keyed by \<open>*config.BucketProvider\<close>, a pointer: a key is an
  address (\<open>ptr\<close>), and the configuration it points to is looked up in the heap (no
  entry: a nil pointer). A client is named by its position in the log of the clients
  \<open>storage.NewClient\<close> has built, so two clients are the same exactly when they come from
  the same construction. \<open>new_err opts\<close> is the message of the error \<open>storage.NewClient\<close>
  returns for these options, \<open>None\<close> when it succeeds.
\<close>

type_synonym ptr = nat

record GCSProviderConfig =
  Anonymous :: bool
  Endpoint :: string

record BucketProvider =
  GCS :: "GCSProviderConfig option"

datatype ClientOption = WithoutAuthentication | WithEndpoint string

datatype panic = NilDereference | PanicMsg string

record Manager =
  clients :: "ptr \<rightharpoonup> nat"
  built :: "ClientOption list list"

definition NewManager :: Manager where
  "NewManager = \<lparr>clients = Map.empty, built = []\<rparr>"

definition Matches :: "BucketProvider \<Rightarrow> bool" where
  "Matches cfg = (GCS cfg \<noteq> None)"

definition client_opts :: "GCSProviderConfig \<Rightarrow> ClientOption list" where
  "client_opts g =
     (if Anonymous g then [WithoutAuthentication] else [])
     @ (if Endpoint g \<noteq> [] then [WithEndpoint (Endpoint g)] else [])"

definition clientForProvider ::
  "(ptr \<rightharpoonup> BucketProvider) \<Rightarrow> (ClientOption list \<Rightarrow> string option) \<Rightarrow> Manager \<Rightarrow> ptr
    \<Rightarrow> (panic + nat) \<times> Manager" where
  "clientForProvider heap new_err mgr prov =
     (case clients mgr prov of
        Some client \<Rightarrow> (Inr client, mgr)
      | None \<Rightarrow>
          (case heap prov of
             None \<Rightarrow> (Inl NilDereference, mgr)
           | Some p \<Rightarrow>
               (case GCS p of
                  None \<Rightarrow> (Inl NilDereference, mgr)
                | Some g \<Rightarrow>
                    (let opts = client_opts g in
                     case new_err opts of
                       Some err \<Rightarrow>
                         (Inl (PanicMsg (''failed to create object storage client: '' @ err)), mgr)
                     | None \<Rightarrow>
                         (let client = length (built mgr);
                              mgr = mgr\<lparr>built := built mgr @ [opts]\<rparr>
                          in (Inr client, mgr\<lparr>clients := (clients mgr)(prov \<mapsto> client)\<rparr>))))))"

definition NewBucket ::
  "(ptr \<rightharpoonup> BucketProvider) \<Rightarrow> (ClientOption list \<Rightarrow> string option) \<Rightarrow> Manager \<Rightarrow> ptr
    \<Rightarrow> BucketCfg option \<Rightarrow> (panic + bucket) \<times> Manager" where
  "NewBucket heap new_err mgr provider runtimeCfg =
     (case clientForProvider heap new_err mgr provider of
        (Inl p, mgr') \<Rightarrow> (Inl p, mgr')
      | (Inr client, mgr') \<Rightarrow>
          (case runtimeCfg of
             None \<Rightarrow> (Inl NilDereference, mgr')
           | Some cfg \<Rightarrow>
               (Inr \<lparr>b_client = client, b_cfg = cfg,
                     b_handle = \<lparr>bh_name = CloudName cfg\<rparr>\<rparr>, mgr')))"

text \<open>Calls of \<open>NewBucket\<close> one after the other; a panic ends the run.\<close>

fun NewBucket_seq ::
  "(ptr \<rightharpoonup> BucketProvider) \<Rightarrow> (ClientOption list \<Rightarrow> string option) \<Rightarrow> Manager
    \<Rightarrow> (ptr \<times> BucketCfg option) list \<Rightarrow> (panic + bucket list) \<times> Manager" where
  "NewBucket_seq heap new_err mgr [] = (Inr [], mgr)"
| "NewBucket_seq heap new_err mgr ((prov, cfg) # calls) =
     (case NewBucket heap new_err mgr prov cfg of
        (Inl p, mgr') \<Rightarrow> (Inl p, mgr')
      | (Inr b, mgr') \<Rightarrow>
          (case NewBucket_seq heap new_err mgr' calls of
             (Inl p, mgr'') \<Rightarrow> (Inl p, mgr'')
           | (Inr bs, mgr'') \<Rightarrow> (Inr (b # bs), mgr'')))"

text \<open>The cache of a Manager that calls of \<open>NewBucket\<close> have built from \<open>NewManager\<close>.\<close>

definition mgr_ok :: "Manager \<Rightarrow> bool" where
  "mgr_ok mgr =
     (inj_on (clients mgr) (dom (clients mgr))
      \<and> ran (clients mgr) = {..<length (built mgr)})"

subsection \<open>Calls that overlap\<close>

text \<open>
  \<open>clientForProvider\<close> takes no lock. A call running beside others does its three
  accesses one at a time: the lookup in the map, the call of \<open>storage.NewClient\<close>, and the
  store into the map; between two of them any other call may run. A schedule names, step
  by step, the call that moves.
\<close>

datatype pc = AtLookup | AtNewClient | AtStore nat | Returned nat | Panicked panic

fun call_step ::
  "(ptr \<rightharpoonup> BucketProvider) \<Rightarrow> (ClientOption list \<Rightarrow> string option) \<Rightarrow> ptr \<Rightarrow> pc \<Rightarrow> Manager
    \<Rightarrow> pc \<times> Manager" where
  "call_step heap new_err prov AtLookup mgr =
     (case clients mgr prov of
        Some client \<Rightarrow> (Returned client, mgr)
      | None \<Rightarrow> (AtNewClient, mgr))"
| "call_step heap new_err prov AtNewClient mgr =
     (case heap prov of
        None \<Rightarrow> (Panicked NilDereference, mgr)
      | Some p \<Rightarrow>
          (case GCS p of
             None \<Rightarrow> (Panicked NilDereference, mgr)
           | Some g \<Rightarrow>
               (let opts = client_opts g in
                case new_err opts of
                  Some err \<Rightarrow>
                    (Panicked (PanicMsg (''failed to create object storage client: '' @ err)), mgr)
                | None \<Rightarrow> (AtStore (length (built mgr)), mgr\<lparr>built := built mgr @ [opts]\<rparr>))))"
| "call_step heap new_err prov (AtStore client) mgr =
     (Returned client, mgr\<lparr>clients := (clients mgr)(prov \<mapsto> client)\<rparr>)"
| "call_step heap new_err prov (Returned client) mgr = (Returned client, mgr)"
| "call_step heap new_err prov (Panicked p) mgr = (Panicked p, mgr)"

fun run_schedule ::
  "(ptr \<rightharpoonup> BucketProvider) \<Rightarrow> (ClientOption list \<Rightarrow> string option) \<Rightarrow> nat list
    \<Rightarrow> (ptr \<times> pc) list \<times> Manager \<Rightarrow> (ptr \<times> pc) list \<times> Manager" where
  "run_schedule heap new_err [] cfg = cfg"
| "run_schedule heap new_err (i # sched) (calls, mgr) =
     (if i < length calls then
        (case calls ! i of
           (prov, p) \<Rightarrow>
             (case call_step heap new_err prov p mgr of
                (p', mgr') \<Rightarrow> run_schedule heap new_err sched (calls[i := (prov, p')], mgr')))
      else run_schedule heap new_err sched (calls, mgr))"

text \<open>The schedule of \<open>n\<close> calls that do not overlap: each call does its three steps in a row.\<close>

definition serial_schedule :: "nat \<Rightarrow> nat list" where
  "serial_schedule n = concat (map (\<lambda>i. [i, i, i]) [0..<n])"

section \<open>Options\<close>

datatype withVersionOption = WithVersion string

record downloadOptions =
  version :: string

record removeOptions =
  version :: string

record attrsOptions =
  version :: string

record existsOptions =
  version :: string

record UploadAttrs =
  ContentType :: string

record uploadOptions =
  attrs :: types_UploadAttrs
  pre :: Preconditions

text \<open>\<open>listOptions\<close> is a struct with no field, and no option of the package applies to it.\<close>

type_synonym listOptions = unit

datatype UploadOption = WithPreconditions Preconditions | WithUploadAttrs UploadAttrs

fun applyDownload :: "withVersionOption \<Rightarrow> downloadOptions \<Rightarrow> downloadOptions" where
  "applyDownload (WithVersion v) opts = opts\<lparr>downloadOptions.version := v\<rparr>"

fun applyRemove :: "withVersionOption \<Rightarrow> removeOptions \<Rightarrow> removeOptions" where
  "applyRemove (WithVersion v) opts = opts\<lparr>removeOptions.version := v\<rparr>"

fun applyAttrs :: "withVersionOption \<Rightarrow> attrsOptions \<Rightarrow> attrsOptions" where
  "applyAttrs (WithVersion v) opts = opts\<lparr>attrsOptions.version := v\<rparr>"

fun applyExists :: "withVersionOption \<Rightarrow> existsOptions \<Rightarrow> existsOptions" where
  "applyExists (WithVersion v) opts = opts\<lparr>existsOptions.version := v\<rparr>"

fun applyUpload :: "UploadOption \<Rightarrow> uploadOptions \<Rightarrow> uploadOptions" where
  "applyUpload (WithPreconditions p) opts = opts\<lparr>pre := p\<rparr>"
| "applyUpload (WithUploadAttrs a) opts =
     opts\<lparr>attrs := \<lparr>types_UploadAttrs.ContentType = UploadAttrs.ContentType a\<rparr>\<rparr>"

text \<open>
  Modelled from the spec: the loop that applies a call's options is in the bucket facade,
  which is not among the sources. Section 4.1: applying a list of options to a fresh
  default-valued options struct is a strict left fold.
\<close>

definition default_downloadOptions :: downloadOptions where
  "default_downloadOptions = \<lparr>downloadOptions.version = []\<rparr>"

definition default_uploadOptions :: uploadOptions where
  "default_uploadOptions =
     \<lparr>attrs = \<lparr>types_UploadAttrs.ContentType = []\<rparr>, pre = \<lparr>NotExists = False\<rparr>\<rparr>"

definition default_removeOptions :: removeOptions where
  "default_removeOptions = \<lparr>removeOptions.version = []\<rparr>"

definition default_attrsOptions :: attrsOptions where
  "default_attrsOptions = \<lparr>attrsOptions.version = []\<rparr>"

definition default_existsOptions :: existsOptions where
  "default_existsOptions = \<lparr>existsOptions.version = []\<rparr>"

definition download_options :: "withVersionOption list \<Rightarrow> downloadOptions" where
  "download_options os = foldl (\<lambda>opts o'. applyDownload o' opts) default_downloadOptions os"

definition remove_options :: "withVersionOption list \<Rightarrow> removeOptions" where
  "remove_options os = foldl (\<lambda>opts o'. applyRemove o' opts) default_removeOptions os"

definition attrs_options :: "withVersionOption list \<Rightarrow> attrsOptions" where
  "attrs_options os = foldl (\<lambda>opts o'. applyAttrs o' opts) default_attrsOptions os"

definition exists_options :: "withVersionOption list \<Rightarrow> existsOptions" where
  "exists_options os = foldl (\<lambda>opts o'. applyExists o' opts) default_existsOptions os"

definition upload_options :: "UploadOption list \<Rightarrow> uploadOptions" where
  "upload_options os = foldl (\<lambda>opts o'. applyUpload o' opts) default_uploadOptions os"

text \<open>The version a list of options sets: that of its last \<open>WithVersion\<close>, empty for none.\<close>

definition last_version :: "withVersionOption list \<Rightarrow> string" where
  "last_version os = (case rev os of [] \<Rightarrow> [] | WithVersion v # rest \<Rightarrow> v)"

fun sets_pre :: "UploadOption \<Rightarrow> bool" where
  "sets_pre (WithPreconditions p) = True"
| "sets_pre (WithUploadAttrs a) = False"

section \<open>Error normalisation\<close>

lemma status_FromError_not_ok:
  "status_FromError e = (s, False) \<Longrightarrow> s = codes_Unknown"
  by (auto simp: status_FromError_def split: option.splits)

lemma mapErr_None_iff: "mapErr err = None \<longleftrightarrow> err = None"
  by (auto simp: mapErr_def split: option.splits)

text \<open>
  C2. \<open>mapErr\<close> returns nil for nil; an error that is a backend object-not-exist
  condition becomes \<open>ObjectNotExist\<close>; any other error that is a backend precondition or
  already-exists signal (HTTP 412, gRPC AlreadyExists or FailedPrecondition) becomes
  \<open>PreconditionFailed\<close>; every remaining error is returned as it is, the very same value.
  (The source tests object-not-exist first, so an error that is both is \<open>ObjectNotExist\<close>.)
\<close>

theorem mapErr_normalises:
  "mapErr None = None
   \<and> (object_not_exist_condition e \<longrightarrow> mapErr (Some e) = Some (Leaf TypesErrObjectNotExist))
   \<and> (\<not> object_not_exist_condition e \<and> precondition_signal e \<longrightarrow>
        mapErr (Some e) = Some (Leaf TypesErrPreconditionFailed))
   \<and> (\<not> object_not_exist_condition e \<and> \<not> precondition_signal e \<longrightarrow>
        mapErr (Some e) = Some e)"
  by (auto simp: mapErr_def object_not_exist_condition_def precondition_signal_def
      status_FromError_def codes_Unknown_def codes_AlreadyExists_def
      codes_FailedPrecondition_def http_StatusPreconditionFailed_def
      split: option.splits)

theorem mapErr_normalises_witness:
  "object_not_exist_condition (Wrap (OtherError ''read'') (Leaf StorageErrObjectNotExist))
   \<and> mapErr (Some (Wrap (OtherError ''read'') (Leaf StorageErrObjectNotExist)))
       = Some (Leaf TypesErrObjectNotExist)
   \<and> \<not> object_not_exist_condition (Leaf (GoogleapiError 412))
   \<and> precondition_signal (Leaf (GoogleapiError 412))
   \<and> mapErr (Some (Leaf (GoogleapiError 412))) = Some (Leaf TypesErrPreconditionFailed)
   \<and> precondition_signal (Wrap (OtherError ''rpc'') (Leaf (GRPCStatusError 9)))
   \<and> mapErr (Some (Wrap (OtherError ''rpc'') (Leaf (GRPCStatusError 9))))
       = Some (Leaf TypesErrPreconditionFailed)
   \<and> \<not> object_not_exist_condition (Leaf (GoogleapiError 503))
   \<and> \<not> precondition_signal (Leaf (GoogleapiError 503))
   \<and> mapErr (Some (Leaf (GoogleapiError 503))) = Some (Leaf (GoogleapiError 503))"
proof -
  let ?e1 = "Wrap (OtherError ''read'') (Leaf StorageErrObjectNotExist)"
  let ?e2 = "Leaf (GoogleapiError 412)"
  let ?e3 = "Wrap (OtherError ''rpc'') (Leaf (GRPCStatusError 9))"
  let ?e4 = "Leaf (GoogleapiError 503)"
  have h1: "object_not_exist_condition ?e1"
    by (simp add: object_not_exist_condition_def errors_Is_def)
  have h2: "\<not> object_not_exist_condition ?e2 \<and> precondition_signal ?e2"
    by (simp add: object_not_exist_condition_def errors_Is_def
        precondition_signal_def errors_As_googleapi_def)
  have h3: "\<not> object_not_exist_condition ?e3 \<and> precondition_signal ?e3"
    by (simp add: object_not_exist_condition_def errors_Is_def
        precondition_signal_def errors_As_googleapi_def)
  have h4: "\<not> object_not_exist_condition ?e4 \<and> \<not> precondition_signal ?e4"
    by (simp add: object_not_exist_condition_def errors_Is_def
        precondition_signal_def errors_As_googleapi_def)
  show ?thesis
    using h1 h2 h3 h4 mapErr_normalises [of ?e1] mapErr_normalises [of ?e2]
      mapErr_normalises [of ?e3] mapErr_normalises [of ?e4]
    by blast
qed

section \<open>Version tokens are parsed leniently\<close>

lemma less_10_cases:
  "(d::nat) < 10 \<Longrightarrow> d = 0 \<or> d = 1 \<or> d = 2 \<or> d = 3 \<or> d = 4 \<or> d = 5 \<or> d = 6 \<or> d = 7 \<or> d = 8 \<or> d = 9"
  by arith

lemma digit_roundtrip: "d < 10 \<Longrightarrow> is_digit (digit_char d) \<and> digit_val (digit_char d) = d"
  by (drule less_10_cases) (auto simp: is_digit_def digit_val_def digit_char_def)

lemma digit_char_not_sign:
  "d < 10 \<Longrightarrow> digit_char d \<noteq> CHR ''-'' \<and> digit_char d \<noteq> CHR ''+''"
  by (drule less_10_cases) (auto simp: digit_char_def)

lemma digits_val_snoc:
  "digits_val acc (xs @ [c]) =
     (case digits_val acc xs of
        None \<Rightarrow> None
      | Some v \<Rightarrow> if is_digit c then Some (v * 10 + digit_val c) else None)"
  by (induction xs arbitrary: acc) auto

lemma digits_val_digits_of: "digits_val 0 (digits_of n) = Some n"
proof (induction n rule: digits_of.induct)
  case (1 n)
  show ?case
  proof (cases "n < 10")
    case True
    then show ?thesis by (simp add: digit_roundtrip)
  next
    case False
    then have "digits_val 0 (digits_of (n div 10)) = Some (n div 10)"
      using 1 by simp
    moreover have "n mod 10 < 10" by simp
    ultimately show ?thesis using False
      by (subst digits_of.simps) (simp add: digits_val_snoc digit_roundtrip del: digits_of.simps)
  qed
qed

lemma digits_of_nonempty: "digits_of n \<noteq> []"
  by (subst digits_of.simps) simp

lemma hd_digits_of: "\<exists>d cs. d < 10 \<and> digits_of n = digit_char d # cs"
proof (induction n rule: digits_of.induct)
  case (1 n)
  show ?case
  proof (cases "n < 10")
    case True
    then show ?thesis by (subst digits_of.simps) auto
  next
    case False
    then obtain d cs where "d < 10" "digits_of (n div 10) = digit_char d # cs"
      using 1 by blast
    then show ?thesis using False by (subst digits_of.simps) auto
  qed
qed

lemma ParseInt_FormatInt: "ParseInt (FormatInt i) = Some i"
proof (cases "sint i < 0")
  case True
  let ?m = "nat (- sint i)"
  have le: "?m \<le> 2 ^ 63" using sint_ge [of i] by simp
  have "(- of_nat ?m :: int64) = i" using True by simp
  then show ?thesis using True le
    by (simp add: ParseInt_def FormatInt_def ParseUint_def digits_of_nonempty
        digits_val_digits_of del: digits_of.simps)
next
  case False
  let ?m = "nat (sint i)"
  obtain d cs where d: "d < 10" "digits_of ?m = digit_char d # cs"
    using hd_digits_of by blast
  have lt: "?m < 2 ^ 63" using sint_lt [of i] False by simp
  have same: "(of_nat ?m :: int64) = i" using False by simp
  have "ParseUint (digit_char d # cs) = Some ?m"
    using digits_val_digits_of [of ?m] d by (simp add: ParseUint_def)
  then show ?thesis using False lt same d digit_char_not_sign [of d]
    by (simp add: ParseInt_def FormatInt_def del: digits_of.simps)
qed

lemma FormatInt_nonempty: "FormatInt i \<noteq> []"
  by (simp add: FormatInt_def digits_of_nonempty del: digits_of.simps)

lemma Download_versioned:
  "Download be b data
     = (case be (versioned (b_handle b) (DownloadData.Object data) (DownloadData.Version data)) of
          (r, err) \<Rightarrow> (r, mapErr err))"
  by (simp add: Download_def versioned_def split: option.splits)

lemma Remove_versioned:
  "Remove be b data
     = mapErr (be (versioned (b_handle b) (RemoveData.Object data) (RemoveData.Version data)))"
  by (simp add: Remove_def versioned_def split: option.splits)

lemma Attrs_op_versioned:
  "Attrs_op be b data
     = (case be (versioned (b_handle b) (AttrsData.Object data) (AttrsData.Version data)) of
          (resp, err) \<Rightarrow> (mapAttrs resp, mapErr err))"
  by (simp add: Attrs_op_def versioned_def split: option.splits)

lemma sent_generation_Object: "sent_generation (bh_Object h name) = None"
  by (simp add: sent_generation_def bh_Object_def)

lemma sent_generation_Generation:
  "sent_generation (oh_Generation obj gen) = (if 0 \<le> sint gen then Some gen else None)"
  by (simp add: sent_generation_def oh_Generation_def)

text \<open>
  C3, as the code has it. On \<open>Download\<close>, \<open>Remove\<close> and \<open>Attrs\<close>, a non-empty version
  string that \<open>ParseInt\<close> rejects is dropped: the backend is called on the plain handle
  of the object, whose requests carry no generation (the live version), and the call does
  not fail for it. A string that \<open>ParseInt\<close> accepts as \<open>gen\<close> has the backend called on
  \<open>Generation(gen)\<close> of the handle: its requests carry exactly \<open>gen\<close> when \<open>gen\<close> is not
  negative, and no generation, the live version again, when \<open>gen\<close> is negative.
\<close>

theorem version_parsed_leniently:
  assumes "v \<noteq> []"
  shows
    "(ParseInt v = None \<longrightarrow>
        Download be1 b \<lparr>DownloadData.Object = obj, DownloadData.Version = v\<rparr>
          = (case be1 (bh_Object (b_handle b) obj) of (r, err) \<Rightarrow> (r, mapErr err))
        \<and> Remove be2 b \<lparr>RemoveData.Object = obj, RemoveData.Version = v\<rparr>
          = mapErr (be2 (bh_Object (b_handle b) obj))
        \<and> Attrs_op be3 b \<lparr>AttrsData.Object = obj, AttrsData.Version = v\<rparr>
          = (case be3 (bh_Object (b_handle b) obj) of (resp, err) \<Rightarrow> (mapAttrs resp, mapErr err))
        \<and> sent_generation (bh_Object (b_handle b) obj) = None)
     \<and> (\<forall>gen. ParseInt v = Some gen \<longrightarrow>
        Download be1 b \<lparr>DownloadData.Object = obj, DownloadData.Version = v\<rparr>
          = (case be1 (oh_Generation (bh_Object (b_handle b) obj) gen) of
               (r, err) \<Rightarrow> (r, mapErr err))
        \<and> Remove be2 b \<lparr>RemoveData.Object = obj, RemoveData.Version = v\<rparr>
          = mapErr (be2 (oh_Generation (bh_Object (b_handle b) obj) gen))
        \<and> Attrs_op be3 b \<lparr>AttrsData.Object = obj, AttrsData.Version = v\<rparr>
          = (case be3 (oh_Generation (bh_Object (b_handle b) obj) gen) of
               (resp, err) \<Rightarrow> (mapAttrs resp, mapErr err))
        \<and> (0 \<le> sint gen \<longrightarrow>
              sent_generation (oh_Generation (bh_Object (b_handle b) obj) gen) = Some gen)
        \<and> (sint gen < 0 \<longrightarrow>
              sent_generation (oh_Generation (bh_Object (b_handle b) obj) gen) = None))"
  using assms
  by (simp add: Download_versioned Remove_versioned Attrs_op_versioned versioned_def
      sent_generation_Object sent_generation_Generation)

theorem version_parsed_leniently_witness:
  "ParseInt ''latest'' = None
   \<and> Remove (\<lambda>h. case sent_generation h of
                    None \<Rightarrow> None
                  | Some g \<Rightarrow> if g = 17 then None else Some (Leaf StorageErrObjectNotExist))
        \<lparr>b_client = 0, b_cfg = \<lparr>CloudName = ''bkt''\<rparr>, b_handle = \<lparr>bh_name = ''bkt''\<rparr>\<rparr>
        \<lparr>RemoveData.Object = ''a.txt'', RemoveData.Version = ''latest''\<rparr> = None
   \<and> ParseInt ''18'' = Some 18
   \<and> sent_generation (oh_Generation (bh_Object \<lparr>bh_name = ''bkt''\<rparr> ''a.txt'') 18) = Some 18
   \<and> Remove (\<lambda>h. case sent_generation h of
                    None \<Rightarrow> None
                  | Some g \<Rightarrow> if g = 17 then None else Some (Leaf StorageErrObjectNotExist))
        \<lparr>b_client = 0, b_cfg = \<lparr>CloudName = ''bkt''\<rparr>, b_handle = \<lparr>bh_name = ''bkt''\<rparr>\<rparr>
        \<lparr>RemoveData.Object = ''a.txt'', RemoveData.Version = ''18''\<rparr>
       = Some (Leaf TypesErrObjectNotExist)"
proof -
  let ?be = "\<lambda>h. case sent_generation h of
                    None \<Rightarrow> None
                  | Some g \<Rightarrow> if g = 17 then None else Some (Leaf StorageErrObjectNotExist)"
  let ?b = "\<lparr>b_client = 0, b_cfg = \<lparr>CloudName = ''bkt''\<rparr>, b_handle = \<lparr>bh_name = ''bkt''\<rparr>\<rparr>"
  have n1: "''latest'' \<noteq> []" and n2: "''18'' \<noteq> []" by simp_all
  have p1: "ParseInt ''latest'' = None"
    by (simp add: ParseInt_def ParseUint_def is_digit_def digit_val_def)
  have p2: "ParseInt ''18'' = Some 18"
    by (simp add: ParseInt_def ParseUint_def is_digit_def digit_val_def)
  have pos: "0 \<le> sint (18 :: int64)" by simp
  have m: "mapErr (Some (Leaf StorageErrObjectNotExist)) = Some (Leaf TypesErrObjectNotExist)"
    by (simp add: mapErr_def errors_Is_def)
  have m0: "mapErr None = None" by (simp add: mapErr_def)
  from version_parsed_leniently [OF n1, where ?be2.0 = ?be and b = ?b and obj = "''a.txt''"] p1
  have r1: "Remove ?be ?b \<lparr>RemoveData.Object = ''a.txt'', RemoveData.Version = ''latest''\<rparr>
      = mapErr (?be (bh_Object (b_handle ?b) ''a.txt''))"
    and s1: "sent_generation (bh_Object (b_handle ?b) ''a.txt'') = None"
    by blast+
  from version_parsed_leniently [OF n2, where ?be2.0 = ?be and b = ?b and obj = "''a.txt''"] p2 pos
  have r2: "Remove ?be ?b \<lparr>RemoveData.Object = ''a.txt'', RemoveData.Version = ''18''\<rparr>
      = mapErr (?be (oh_Generation (bh_Object (b_handle ?b) ''a.txt'') 18))"
    and s2: "sent_generation (oh_Generation (bh_Object (b_handle ?b) ''a.txt'') 18) = Some 18"
    by blast+
  from r1 s1 have "Remove ?be ?b \<lparr>RemoveData.Object = ''a.txt'', RemoveData.Version = ''latest''\<rparr>
      = None"
    using m0 by simp
  moreover from r2 s2 have "Remove ?be ?b \<lparr>RemoveData.Object = ''a.txt'', RemoveData.Version = ''18''\<rparr>
      = Some (Leaf TypesErrObjectNotExist)"
    using m by simp
  ultimately show ?thesis using p1 p2 s2 by simp
qed

text \<open>
  The claim as stated fails at the version \<open>-5\<close>: \<open>ParseInt\<close> accepts it, the driver calls
  \<open>Generation(-5)\<close>, the request carries no generation, and \<open>Remove\<close> on a backend that
  has the object live and no generation \<open>-5\<close> of it deletes the live object and returns
  nil, where an operation pinned to that generation returns \<open>ObjectNotExist\<close>.
\<close>

theorem negative_version_targets_live:
  "ParseInt ''-5'' = Some (- 5)
   \<and> sent_generation (oh_Generation (bh_Object \<lparr>bh_name = ''bkt''\<rparr> ''a.txt'') (- 5)) = None
   \<and> Remove (\<lambda>h. case sent_generation h of
                    None \<Rightarrow> None
                  | Some g \<Rightarrow> Some (Leaf StorageErrObjectNotExist))
        \<lparr>b_client = 0, b_cfg = \<lparr>CloudName = ''bkt''\<rparr>, b_handle = \<lparr>bh_name = ''bkt''\<rparr>\<rparr>
        \<lparr>RemoveData.Object = ''a.txt'', RemoveData.Version = ''-5''\<rparr>
       = None"
proof -
  have p: "ParseInt ''-5'' = Some (- 5)"
    by (simp add: ParseInt_def ParseUint_def is_digit_def digit_val_def)
  have neg: "\<not> 0 \<le> sint (- 5 :: int64)" by simp
  have s: "sent_generation (oh_Generation (bh_Object \<lparr>bh_name = ''bkt''\<rparr> ''a.txt'') (- 5)) = None"
    using neg by (simp add: sent_generation_Generation)
  show ?thesis
    using p s by (simp add: Remove_versioned versioned_def mapErr_def)
qed

section \<open>Versions the driver hands out\<close>

lemma mapAttrs_Some_version:
  "\<exists>oa. mapAttrs (Some a) = Some oa
     \<and> types_ObjectAttrs.Version oa = FormatInt (Generation a)
     \<and> types_ObjectAttrs.Object oa = Name a"
  by (simp add: mapAttrs_def)

lemma produced_attrs:
  assumes "(fst (be0 (versioned (b_handle b0) (AttrsData.Object d0) (AttrsData.Version d0))) = Some a
            \<and> produced = fst (Attrs_op be0 b0 d0))
         \<or> (sdk_Close (u_w u) = (None, Some a)
            \<and> produced = fst (uploader_Complete sdk_Close u))"
  shows "produced = mapAttrs (Some a)"
  using assms
  by (auto simp: Attrs_op_versioned uploader_Complete_def split: prod.splits)

text \<open>
  C10. Let \<open>a\<close> be the attributes the backend returned, to \<open>Attrs\<close> or after the
  \<open>Close\<close> of \<open>Complete\<close>. The \<open>ObjectAttrs\<close> the driver produces from them has as
  \<open>Version\<close> the decimal string of the generation of \<open>a\<close>. The string is never empty and
  \<open>ParseInt\<close> reads it back as that generation, so \<open>WithVersion\<close> of it on a later
  \<open>Download\<close>, \<open>Remove\<close> or \<open>Attrs\<close> has the backend called on \<open>Generation\<close> of exactly
  the generation of \<open>a\<close>, never on the plain handle; the request carries that generation,
  backend generations being non-negative.
\<close>

theorem driver_versions_parse:
  assumes "(fst (be0 (versioned (b_handle b0) (AttrsData.Object d0) (AttrsData.Version d0))) = Some a
            \<and> produced = fst (Attrs_op be0 b0 d0))
         \<or> (sdk_Close (u_w u) = (None, Some a)
            \<and> produced = fst (uploader_Complete sdk_Close u))"
  shows
    "\<exists>oa. produced = Some oa
       \<and> types_ObjectAttrs.Version oa = FormatInt (Generation a)
       \<and> types_ObjectAttrs.Object oa = Name a
       \<and> types_ObjectAttrs.Version oa \<noteq> []
       \<and> ParseInt (types_ObjectAttrs.Version oa) = Some (Generation a)
       \<and> Download be1 b
            \<lparr>DownloadData.Object = obj,
             DownloadData.Version =
               downloadOptions.version
                 (applyDownload (WithVersion (types_ObjectAttrs.Version oa)) opts1)\<rparr>
          = (case be1 (oh_Generation (bh_Object (b_handle b) obj) (Generation a)) of
               (r, err) \<Rightarrow> (r, mapErr err))
       \<and> Remove be2 b
            \<lparr>RemoveData.Object = obj,
             RemoveData.Version =
               removeOptions.version
                 (applyRemove (WithVersion (types_ObjectAttrs.Version oa)) opts2)\<rparr>
          = mapErr (be2 (oh_Generation (bh_Object (b_handle b) obj) (Generation a)))
       \<and> Attrs_op be3 b
            \<lparr>AttrsData.Object = obj,
             AttrsData.Version =
               attrsOptions.version
                 (applyAttrs (WithVersion (types_ObjectAttrs.Version oa)) opts3)\<rparr>
          = (case be3 (oh_Generation (bh_Object (b_handle b) obj) (Generation a)) of
               (resp, err) \<Rightarrow> (mapAttrs resp, mapErr err))
       \<and> (0 \<le> sint (Generation a) \<longrightarrow>
             sent_generation (oh_Generation (bh_Object (b_handle b) obj) (Generation a))
               = Some (Generation a))"
proof -
  from assms have pr: "produced = mapAttrs (Some a)"
    by (rule produced_attrs)
  obtain oa where oa: "mapAttrs (Some a) = Some oa"
    and v: "types_ObjectAttrs.Version oa = FormatInt (Generation a)"
    and n: "types_ObjectAttrs.Object oa = Name a"
    using mapAttrs_Some_version by blast
  have ne: "FormatInt (Generation a) \<noteq> []" by (rule FormatInt_nonempty)
  have p: "ParseInt (FormatInt (Generation a)) = Some (Generation a)"
    by (rule ParseInt_FormatInt)
  show ?thesis
    by (rule exI [of _ oa])
      (simp add: pr oa v n ne p Download_versioned Remove_versioned Attrs_op_versioned
        versioned_def sent_generation_Generation del: digits_of.simps)
qed

theorem driver_versions_parse_witness:
  "fst (Attrs_op
          (\<lambda>h. (Some \<lparr>Name = oh_object h, Generation = 42, ContentType = ''text/plain'',
                        Size = 3, Etag = ''e''\<rparr>, None))
          \<lparr>b_client = 0, b_cfg = \<lparr>CloudName = ''bkt''\<rparr>, b_handle = \<lparr>bh_name = ''bkt''\<rparr>\<rparr>
          \<lparr>AttrsData.Object = ''a.txt'', AttrsData.Version = []\<rparr>)
     = Some \<lparr>types_ObjectAttrs.Object = ''a.txt'', Version = ''42'',
              ContentType = ''text/plain'', Size = 3, ETag = ''e''\<rparr>
   \<and> ParseInt ''42'' = Some 42
   \<and> Remove (\<lambda>h. if sent_generation h = Some 42 then None
                  else Some (Leaf StorageErrObjectNotExist))
        \<lparr>b_client = 0, b_cfg = \<lparr>CloudName = ''bkt''\<rparr>, b_handle = \<lparr>bh_name = ''bkt''\<rparr>\<rparr>
        \<lparr>RemoveData.Object = ''a.txt'',
         RemoveData.Version =
           removeOptions.version (applyRemove (WithVersion ''42'') \<lparr>removeOptions.version = []\<rparr>)\<rparr>
     = None"
proof -
  let ?a = "\<lparr>Name = ''a.txt'', Generation = 42, ContentType = ''text/plain'',
                        Size = 3, Etag = ''e''\<rparr>"
  let ?be = "\<lambda>h. (Some \<lparr>Name = oh_object h, Generation = 42, ContentType = ''text/plain'',
                        Size = 3, Etag = ''e''\<rparr>, None :: go_error option)"
  let ?b = "\<lparr>b_client = 0, b_cfg = \<lparr>CloudName = ''bkt''\<rparr>, b_handle = \<lparr>bh_name = ''bkt''\<rparr>\<rparr>"
  let ?d = "\<lparr>AttrsData.Object = ''a.txt'', AttrsData.Version = []\<rparr>"
  let ?del = "\<lambda>h. if sent_generation h = Some (42::int64) then None
                  else Some (Leaf StorageErrObjectNotExist)"
  have f: "FormatInt 42 = ''42''"
    by (simp add: FormatInt_def digit_char_def)
  have h: "(fst (?be (versioned (b_handle ?b) (AttrsData.Object ?d) (AttrsData.Version ?d))) = Some ?a
            \<and> fst (Attrs_op ?be ?b ?d) = fst (Attrs_op ?be ?b ?d))
         \<or> (undefined (u_w undefined) = (None, Some ?a)
            \<and> fst (Attrs_op ?be ?b ?d) = fst (uploader_Complete undefined undefined))"
    by (simp add: versioned_def bh_Object_def)
  have pos: "0 \<le> sint (Generation ?a)" by simp
  obtain oa where oa: "fst (Attrs_op ?be ?b ?d) = Some oa"
     "types_ObjectAttrs.Version oa = FormatInt (Generation ?a)"
     "types_ObjectAttrs.Object oa = Name ?a"
     "ParseInt (types_ObjectAttrs.Version oa) = Some (Generation ?a)"
     "Remove ?del ?b
        \<lparr>RemoveData.Object = ''a.txt'',
         RemoveData.Version =
           removeOptions.version
             (applyRemove (WithVersion (types_ObjectAttrs.Version oa)) \<lparr>removeOptions.version = []\<rparr>)\<rparr>
       = mapErr (?del (oh_Generation (bh_Object (b_handle ?b) ''a.txt'') (Generation ?a)))"
     "sent_generation (oh_Generation (bh_Object (b_handle ?b) ''a.txt'') (Generation ?a))
       = Some (Generation ?a)"
    using driver_versions_parse [OF h, where b = ?b and obj = "''a.txt''" and ?be2.0 = ?del
        and ?opts2.0 = "\<lparr>removeOptions.version = []\<rparr>"] pos
    by blast
  have m0: "mapErr None = None" by (simp add: mapErr_def)
  have a1: "fst (Attrs_op ?be ?b ?d)
     = Some \<lparr>types_ObjectAttrs.Object = ''a.txt'', Version = ''42'',
              ContentType = ''text/plain'', Size = 3, ETag = ''e''\<rparr>"
    by (simp add: Attrs_op_versioned versioned_def mapAttrs_def bh_Object_def f
        del: digits_of.simps)
  have p: "ParseInt ''42'' = Some 42"
    using oa(2,4) f by simp
  have "Remove ?del ?b
        \<lparr>RemoveData.Object = ''a.txt'',
         RemoveData.Version =
           removeOptions.version (applyRemove (WithVersion ''42'') \<lparr>removeOptions.version = []\<rparr>)\<rparr>
     = None"
    using oa(2,5,6) f m0 by simp
  with a1 p show ?thesis by simp
qed

section \<open>Options are applied as a left fold\<close>

lemma last_version_snoc: "last_version (os @ [WithVersion v]) = v"
  by (simp add: last_version_def)

lemma download_options_snoc:
  "download_options (os @ [x]) = applyDownload x (download_options os)"
  by (simp add: download_options_def)

lemma remove_options_snoc:
  "remove_options (os @ [x]) = applyRemove x (remove_options os)"
  by (simp add: remove_options_def)

lemma attrs_options_snoc:
  "attrs_options (os @ [x]) = applyAttrs x (attrs_options os)"
  by (simp add: attrs_options_def)

lemma exists_options_snoc:
  "exists_options (os @ [x]) = applyExists x (exists_options os)"
  by (simp add: exists_options_def)

lemma download_options_version:
  "downloadOptions.version (download_options os) = last_version os"
proof (induction os rule: rev_induct)
  case Nil
  show ?case by (simp add: download_options_def default_downloadOptions_def last_version_def)
next
  case (snoc x os)
  show ?case by (cases x) (simp add: download_options_snoc last_version_snoc)
qed

lemma remove_options_version:
  "removeOptions.version (remove_options os) = last_version os"
proof (induction os rule: rev_induct)
  case Nil
  show ?case by (simp add: remove_options_def default_removeOptions_def last_version_def)
next
  case (snoc x os)
  show ?case by (cases x) (simp add: remove_options_snoc last_version_snoc)
qed

lemma attrs_options_version:
  "attrsOptions.version (attrs_options os) = last_version os"
proof (induction os rule: rev_induct)
  case Nil
  show ?case by (simp add: attrs_options_def default_attrsOptions_def last_version_def)
next
  case (snoc x os)
  show ?case by (cases x) (simp add: attrs_options_snoc last_version_snoc)
qed

lemma exists_options_version:
  "existsOptions.version (exists_options os) = last_version os"
proof (induction os rule: rev_induct)
  case Nil
  show ?case by (simp add: exists_options_def default_existsOptions_def last_version_def)
next
  case (snoc x os)
  show ?case by (cases x) (simp add: exists_options_snoc last_version_snoc)
qed

lemma upload_options_snoc:
  "upload_options (us @ [u]) = applyUpload u (upload_options us)"
  by (simp add: upload_options_def)

lemma applyUpload_commute:
  "applyUpload (WithPreconditions p) (applyUpload (WithUploadAttrs a) opts)
     = applyUpload (WithUploadAttrs a) (applyUpload (WithPreconditions p) opts)"
  by simp

lemma foldl_applyUpload_pre:
  "\<forall>u\<in>set us. \<not> sets_pre u \<Longrightarrow>
     pre (foldl (\<lambda>opts o'. applyUpload o' opts) s us) = pre s"
proof (induction us arbitrary: s)
  case Nil
  then show ?case by simp
next
  case (Cons u us)
  then show ?case by (cases u) simp_all
qed

lemma foldl_applyUpload_attrs:
  "\<forall>u\<in>set us. sets_pre u \<Longrightarrow>
     attrs (foldl (\<lambda>opts o'. applyUpload o' opts) s us) = attrs s"
proof (induction us arbitrary: s)
  case Nil
  then show ?case by simp
next
  case (Cons u us)
  then show ?case by (cases u) simp_all
qed

text \<open>
  C7. For each operation, options are applied to its default-valued struct as a left
  fold, one after the other. Of two options that set the same field the later one wins: on
  the structs of \<open>Download\<close>, \<open>Remove\<close>, \<open>Attrs\<close> and \<open>Exists\<close> the version is that of
  the last \<open>WithVersion\<close> (empty for none); on the struct of \<open>Upload\<close> the preconditions
  are those of the last \<open>WithPreconditions\<close> and the attributes those of the last
  \<open>WithUploadAttrs\<close>. Options on different fields commute, and each leaves the other's
  field as it was.
\<close>

theorem options_left_fold:
  "download_options [] = default_downloadOptions
   \<and> download_options (os @ [x]) = applyDownload x (download_options os)
   \<and> downloadOptions.version (download_options os) = last_version os
   \<and> remove_options [] = default_removeOptions
   \<and> remove_options (os @ [x]) = applyRemove x (remove_options os)
   \<and> removeOptions.version (remove_options os) = last_version os
   \<and> attrs_options [] = default_attrsOptions
   \<and> attrs_options (os @ [x]) = applyAttrs x (attrs_options os)
   \<and> attrsOptions.version (attrs_options os) = last_version os
   \<and> exists_options [] = default_existsOptions
   \<and> exists_options (os @ [x]) = applyExists x (exists_options os)
   \<and> existsOptions.version (exists_options os) = last_version os
   \<and> last_version [] = []
   \<and> last_version (os @ [WithVersion v1] @ os' @ [WithVersion v2]) = v2
   \<and> upload_options [] = default_uploadOptions
   \<and> upload_options (us @ [u]) = applyUpload u (upload_options us)
   \<and> ((\<forall>u\<in>set us'. \<not> sets_pre u) \<longrightarrow>
         pre (upload_options (us @ [WithPreconditions p] @ us')) = p)
   \<and> ((\<forall>u\<in>set us'. sets_pre u) \<longrightarrow>
         attrs (upload_options (us @ [WithUploadAttrs a] @ us'))
           = \<lparr>types_UploadAttrs.ContentType = UploadAttrs.ContentType a\<rparr>)
   \<and> upload_options (us @ [WithPreconditions p, WithUploadAttrs a] @ us')
       = upload_options (us @ [WithUploadAttrs a, WithPreconditions p] @ us')
   \<and> pre (applyUpload (WithUploadAttrs a) opts) = pre opts
   \<and> attrs (applyUpload (WithPreconditions p) opts) = attrs opts"
proof -
  have v: "download_options [] = default_downloadOptions
      \<and> remove_options [] = default_removeOptions
      \<and> attrs_options [] = default_attrsOptions
      \<and> exists_options [] = default_existsOptions
      \<and> upload_options [] = default_uploadOptions
      \<and> last_version [] = []"
    by (simp add: download_options_def remove_options_def attrs_options_def
        exists_options_def upload_options_def last_version_def)
  have l: "last_version (os @ [WithVersion v1] @ os' @ [WithVersion v2]) = v2"
    using last_version_snoc [of "os @ [WithVersion v1] @ os'" v2] by simp
  have p: "(\<forall>u\<in>set us'. \<not> sets_pre u) \<longrightarrow>
         pre (upload_options (us @ [WithPreconditions p] @ us')) = p"
    by (simp add: upload_options_def foldl_applyUpload_pre)
  have a: "(\<forall>u\<in>set us'. sets_pre u) \<longrightarrow>
         attrs (upload_options (us @ [WithUploadAttrs a] @ us'))
           = \<lparr>types_UploadAttrs.ContentType = UploadAttrs.ContentType a\<rparr>"
    by (simp add: upload_options_def foldl_applyUpload_attrs)
  have c: "upload_options (us @ [WithPreconditions p, WithUploadAttrs a] @ us')
       = upload_options (us @ [WithUploadAttrs a, WithPreconditions p] @ us')"
    by (simp add: upload_options_def applyUpload_commute del: applyUpload.simps)
  have f: "pre (applyUpload (WithUploadAttrs a) opts) = pre opts
      \<and> attrs (applyUpload (WithPreconditions p) opts) = attrs opts"
    by simp
  from v l p a c f show ?thesis
    using download_options_snoc [of os x] remove_options_snoc [of os x]
      attrs_options_snoc [of os x] exists_options_snoc [of os x] upload_options_snoc [of us u]
      download_options_version [of os] remove_options_version [of os]
      attrs_options_version [of os] exists_options_version [of os]
    by blast
qed

theorem options_left_fold_witness:
  "downloadOptions.version (download_options [WithVersion ''1'', WithVersion ''2'']) = ''2''
   \<and> removeOptions.version (remove_options [WithVersion ''1'', WithVersion ''2'']) = ''2''
   \<and> attrsOptions.version (attrs_options [WithVersion ''1'', WithVersion ''2'']) = ''2''
   \<and> existsOptions.version (exists_options [WithVersion ''1'', WithVersion ''2'']) = ''2''
   \<and> pre (upload_options
            [WithPreconditions \<lparr>NotExists = False\<rparr>, WithPreconditions \<lparr>NotExists = True\<rparr>,
             WithUploadAttrs \<lparr>UploadAttrs.ContentType = ''text/plain''\<rparr>])
       = \<lparr>NotExists = True\<rparr>
   \<and> attrs (upload_options
            [WithUploadAttrs \<lparr>UploadAttrs.ContentType = ''text/plain''\<rparr>,
             WithPreconditions \<lparr>NotExists = True\<rparr>])
       = \<lparr>types_UploadAttrs.ContentType = ''text/plain''\<rparr>"
proof -
  let ?a = "\<lparr>UploadAttrs.ContentType = ''text/plain''\<rparr>"
  let ?os = "[WithVersion ''1'', WithVersion ''2'']"
  have h1: "\<forall>u\<in>set [WithUploadAttrs ?a]. \<not> sets_pre u" by simp
  have h2: "\<forall>u\<in>set [WithPreconditions \<lparr>NotExists = True\<rparr>]. sets_pre u" by simp
  have lv: "last_version ?os = ''2''" by (simp add: last_version_def)
  have v: "downloadOptions.version (download_options ?os) = last_version ?os
      \<and> removeOptions.version (remove_options ?os) = last_version ?os
      \<and> attrsOptions.version (attrs_options ?os) = last_version ?os
      \<and> existsOptions.version (exists_options ?os) = last_version ?os"
    using options_left_fold [where os = ?os] by blast
  have u: "pre (upload_options
            ([WithPreconditions \<lparr>NotExists = False\<rparr>] @ [WithPreconditions \<lparr>NotExists = True\<rparr>]
             @ [WithUploadAttrs ?a])) = \<lparr>NotExists = True\<rparr>"
    using h1 options_left_fold [where us = "[WithPreconditions \<lparr>NotExists = False\<rparr>]"
        and us' = "[WithUploadAttrs ?a]" and p = "\<lparr>NotExists = True\<rparr>"]
    by blast
  have w: "attrs (upload_options ([] @ [WithUploadAttrs ?a] @ [WithPreconditions \<lparr>NotExists = True\<rparr>]))
      = \<lparr>types_UploadAttrs.ContentType = UploadAttrs.ContentType ?a\<rparr>"
    using h2 options_left_fold [where us = "[]" and us' = "[WithPreconditions \<lparr>NotExists = True\<rparr>]"
        and a = ?a]
    by blast
  from v lv u w show ?thesis by simp
qed

section \<open>Uploads\<close>

lemma mapErr_precondition_signal:
  "\<not> object_not_exist_condition e \<and> precondition_signal e \<Longrightarrow>
     mapErr (Some e) = Some (Leaf TypesErrPreconditionFailed)"
  by (auto simp: mapErr_def object_not_exist_condition_def precondition_signal_def
      status_FromError_def codes_Unknown_def codes_AlreadyExists_def
      codes_FailedPrecondition_def http_StatusPreconditionFailed_def
      split: option.splits)

lemma Upload_result:
  "Upload b data =
     (Some \<lparr>u_w = \<lparr>w_obj = (if NotExists (Pre data)
                             then oh_If (bh_Object (b_handle b) (UploadData.Object data))
                                    \<lparr>DoesNotExist = True\<rparr>
                             else bh_Object (b_handle b) (UploadData.Object data)),
                    w_ContentType = types_UploadAttrs.ContentType (Attrs data),
                    w_sent = []\<rparr>\<rparr>, None)"
  by (simp add: Upload_def oh_NewWriter_def Let_def)

lemma uploader_Write_keeps_handle:
  "w_obj (u_w (snd (uploader_Write sdk_Write u p))) = w_obj (u_w u)"
  by (simp add: uploader_Write_def split: prod.splits)

text \<open>
  C9. \<open>Upload\<close> returns an uploader and a nil error, whatever the bucket and the data. A
  failure of the upload shows in what \<open>Write\<close> and \<open>Complete\<close> return: when the SDK's
  writer fails in \<open>Write\<close> or in \<open>Close\<close>, the uploader's \<open>Write\<close> or \<open>Complete\<close>
  returns a non-nil error, the normalised one, and \<open>Complete\<close> returns no attributes.
\<close>

theorem Upload_returns_no_error:
  "(\<exists>u. Upload b data = (Some u, None))
   \<and> (\<forall>e. snd (sdk_Write (u_w u') p) = Some e \<longrightarrow>
         snd (fst (uploader_Write sdk_Write u' p)) = mapErr (Some e)
         \<and> snd (fst (uploader_Write sdk_Write u' p)) \<noteq> None)
   \<and> (\<forall>e. fst (sdk_Close (u_w u')) = Some e \<longrightarrow>
         uploader_Complete sdk_Close u' = (None, mapErr (Some e))
         \<and> snd (uploader_Complete sdk_Close u') \<noteq> None)"
proof -
  have ne: "\<And>e. mapErr (Some e) \<noteq> None"
    by (simp add: mapErr_None_iff)
  have w: "\<forall>e. snd (sdk_Write (u_w u') p) = Some e \<longrightarrow>
         snd (fst (uploader_Write sdk_Write u' p)) = mapErr (Some e)
         \<and> snd (fst (uploader_Write sdk_Write u' p)) \<noteq> None"
    using ne by (simp add: uploader_Write_def split: prod.splits)
  have c: "\<forall>e. fst (sdk_Close (u_w u')) = Some e \<longrightarrow>
         uploader_Complete sdk_Close u' = (None, mapErr (Some e))
         \<and> snd (uploader_Complete sdk_Close u') \<noteq> None"
    using ne by (simp add: uploader_Complete_def split: prod.splits option.splits)
  have u: "\<exists>u. Upload b data = (Some u, None)"
    by (simp add: Upload_result)
  from u w c show ?thesis by blast
qed

theorem Upload_returns_no_error_witness:
  "Upload \<lparr>b_client = 0, b_cfg = \<lparr>CloudName = ''bkt''\<rparr>, b_handle = \<lparr>bh_name = ''bkt''\<rparr>\<rparr>
      \<lparr>UploadData.Object = ''a.txt'', Attrs = \<lparr>types_UploadAttrs.ContentType = ''text/plain''\<rparr>,
       Pre = \<lparr>NotExists = False\<rparr>\<rparr>
     = (Some \<lparr>u_w = \<lparr>w_obj = \<lparr>oh_bucket = ''bkt'', oh_object = ''a.txt'', oh_gen = - 1,
                                oh_conds = None\<rparr>,
                      w_ContentType = ''text/plain'', w_sent = []\<rparr>\<rparr>, None)
   \<and> uploader_Complete (\<lambda>w. (Some (Leaf (OtherError ''connection reset'')), None))
        \<lparr>u_w = \<lparr>w_obj = \<lparr>oh_bucket = ''bkt'', oh_object = ''a.txt'', oh_gen = - 1,
                          oh_conds = None\<rparr>,
                w_ContentType = ''text/plain'', w_sent = []\<rparr>\<rparr>
     = (None, Some (Leaf (OtherError ''connection reset'')))"
proof -
  let ?u = "\<lparr>u_w = \<lparr>w_obj = \<lparr>oh_bucket = ''bkt'', oh_object = ''a.txt'', oh_gen = - 1,
                          oh_conds = None\<rparr>,
                w_ContentType = ''text/plain'', w_sent = []\<rparr>\<rparr>"
  let ?close = "\<lambda>w :: Writer. (Some (Leaf (OtherError ''connection reset'')),
                   None :: storage_ObjectAttrs option)"
  have h: "fst (?close (u_w ?u)) = Some (Leaf (OtherError ''connection reset''))" by simp
  have m: "mapErr (Some (Leaf (OtherError ''connection reset'')))
      = Some (Leaf (OtherError ''connection reset''))"
    by (simp add: mapErr_def errors_Is_def errors_As_googleapi_def status_FromError_def
        codes_Unknown_def codes_AlreadyExists_def codes_FailedPrecondition_def)
  have "uploader_Complete ?close ?u = (None, mapErr (Some (Leaf (OtherError ''connection reset''))))"
    using Upload_returns_no_error [where u' = ?u and sdk_Close = ?close] h by blast
  then show ?thesis
    using m by (simp add: Upload_result bh_Object_def)
qed

text \<open>
  C4. With \<open>Preconditions.NotExists\<close> set, the writer \<open>Upload\<close> returns is opened on a
  handle that carries the backend's \<open>DoesNotExist\<close> condition, before any byte is
  written, and \<open>Write\<close> keeps the writer on that handle. When closing the writer fails
  with the backend's precondition signal, \<open>Complete\<close> returns \<open>PreconditionFailed\<close> and
  no attributes. When closing succeeds, \<open>Complete\<close> returns the attributes of the
  written object, whose \<open>Version\<close> is the decimal string of the generation the backend
  gave it.
\<close>

theorem Upload_not_exists_conditioned:
  "(NotExists (Pre data) \<longrightarrow>
      (\<exists>u. Upload b data = (Some u, None)
         \<and> oh_conds (w_obj (u_w u)) = Some \<lparr>DoesNotExist = True\<rparr>
         \<and> oh_object (w_obj (u_w u)) = UploadData.Object data
         \<and> w_sent (u_w u) = []
         \<and> w_obj (u_w (snd (uploader_Write sdk_Write u p))) = w_obj (u_w u)))
   \<and> (\<forall>e. fst (sdk_Close (u_w u')) = Some e \<and> \<not> object_not_exist_condition e
           \<and> precondition_signal e \<longrightarrow>
         uploader_Complete sdk_Close u' = (None, Some (Leaf TypesErrPreconditionFailed)))
   \<and> (\<forall>a. sdk_Close (u_w u') = (None, Some a) \<longrightarrow>
         (\<exists>oa. uploader_Complete sdk_Close u' = (Some oa, None)
            \<and> types_ObjectAttrs.Version oa = FormatInt (Generation a)
            \<and> types_ObjectAttrs.Object oa = Name a))"
proof -
  have c: "\<And>e. \<not> object_not_exist_condition e \<and> precondition_signal e \<Longrightarrow>
      mapErr (Some e) = Some (Leaf TypesErrPreconditionFailed)"
    by (rule mapErr_precondition_signal)
  show ?thesis
    by (auto simp: Upload_result uploader_Write_keeps_handle uploader_Complete_def oh_If_def
        bh_Object_def mapAttrs_def c split: prod.splits option.splits)
qed

theorem Upload_not_exists_conditioned_witness:
  "Upload \<lparr>b_client = 0, b_cfg = \<lparr>CloudName = ''bkt''\<rparr>, b_handle = \<lparr>bh_name = ''bkt''\<rparr>\<rparr>
      \<lparr>UploadData.Object = ''a.txt'', Attrs = \<lparr>types_UploadAttrs.ContentType = ''text/plain''\<rparr>,
       Pre = \<lparr>NotExists = True\<rparr>\<rparr>
     = (Some \<lparr>u_w = \<lparr>w_obj = \<lparr>oh_bucket = ''bkt'', oh_object = ''a.txt'', oh_gen = - 1,
                                oh_conds = Some \<lparr>DoesNotExist = True\<rparr>\<rparr>,
                      w_ContentType = ''text/plain'', w_sent = []\<rparr>\<rparr>, None)
   \<and> uploader_Complete
        (\<lambda>w. fst (store_Close
                    [''a.txt'' \<mapsto> \<lparr>Name = ''a.txt'', Generation = 3, ContentType = [], Size = 0,
                                    Etag = []\<rparr>] 7 w))
        \<lparr>u_w = \<lparr>w_obj = \<lparr>oh_bucket = ''bkt'', oh_object = ''a.txt'', oh_gen = - 1,
                          oh_conds = Some \<lparr>DoesNotExist = True\<rparr>\<rparr>,
                w_ContentType = ''text/plain'', w_sent = []\<rparr>\<rparr>
     = (None, Some (Leaf TypesErrPreconditionFailed))
   \<and> snd (store_Close
             [''a.txt'' \<mapsto> \<lparr>Name = ''a.txt'', Generation = 3, ContentType = [], Size = 0,
                             Etag = []\<rparr>] 7
             \<lparr>w_obj = \<lparr>oh_bucket = ''bkt'', oh_object = ''a.txt'', oh_gen = - 1,
                        oh_conds = Some \<lparr>DoesNotExist = True\<rparr>\<rparr>,
              w_ContentType = ''text/plain'', w_sent = []\<rparr>)
     = [''a.txt'' \<mapsto> \<lparr>Name = ''a.txt'', Generation = 3, ContentType = [], Size = 0, Etag = []\<rparr>]
   \<and> uploader_Complete (\<lambda>w. fst (store_Close Map.empty 7 w))
        \<lparr>u_w = \<lparr>w_obj = \<lparr>oh_bucket = ''bkt'', oh_object = ''a.txt'', oh_gen = - 1,
                          oh_conds = Some \<lparr>DoesNotExist = True\<rparr>\<rparr>,
                w_ContentType = ''text/plain'', w_sent = []\<rparr>\<rparr>
     = (Some \<lparr>types_ObjectAttrs.Object = ''a.txt'', Version = ''7'',
               ContentType = ''text/plain'', Size = 0, ETag = []\<rparr>, None)"
proof -
  let ?b = "\<lparr>b_client = 0, b_cfg = \<lparr>CloudName = ''bkt''\<rparr>, b_handle = \<lparr>bh_name = ''bkt''\<rparr>\<rparr>"
  let ?data = "\<lparr>UploadData.Object = ''a.txt'',
       Attrs = \<lparr>types_UploadAttrs.ContentType = ''text/plain''\<rparr>, Pre = \<lparr>NotExists = True\<rparr>\<rparr>"
  let ?w = "\<lparr>w_obj = \<lparr>oh_bucket = ''bkt'', oh_object = ''a.txt'', oh_gen = - 1,
                        oh_conds = Some \<lparr>DoesNotExist = True\<rparr>\<rparr>,
              w_ContentType = ''text/plain'', w_sent = []\<rparr>"
  let ?u = "\<lparr>u_w = ?w\<rparr>"
  let ?store = "[''a.txt'' \<mapsto> \<lparr>Name = ''a.txt'', Generation = 3, ContentType = [], Size = 0,
                                    Etag = []\<rparr>]"
  let ?close1 = "\<lambda>w. fst (store_Close ?store 7 w)"
  let ?close2 = "\<lambda>w. fst (store_Close Map.empty 7 w)"
  let ?a = "\<lparr>Name = ''a.txt'', Generation = 7, ContentType = ''text/plain'', Size = 0, Etag = []\<rparr>"
  let ?e = "Leaf (GoogleapiError 412)"
  have pre: "NotExists (Pre ?data)" by simp
  have up: "Upload ?b ?data = (Some ?u, None)"
    by (simp add: Upload_result oh_If_def bh_Object_def)
  have h1: "fst (?close1 (u_w ?u)) = Some ?e \<and> \<not> object_not_exist_condition ?e
      \<and> precondition_signal ?e"
    by (simp add: store_Close_def object_not_exist_condition_def errors_Is_def
        precondition_signal_def errors_As_googleapi_def)
  have h2: "?close2 (u_w ?u) = (None, Some ?a)"
    by (simp add: store_Close_def Let_def)
  have kept: "snd (store_Close ?store 7 ?w) = ?store"
    by (simp add: store_Close_def)
  have f: "FormatInt 7 = ''7''"
    by (simp add: FormatInt_def digit_char_def)
  have c1: "uploader_Complete ?close1 ?u = (None, Some (Leaf TypesErrPreconditionFailed))"
    using Upload_not_exists_conditioned [where u' = ?u and sdk_Close = ?close1] h1 by blast
  obtain oa where oa: "uploader_Complete ?close2 ?u = (Some oa, None)"
    using Upload_not_exists_conditioned [where u' = ?u and sdk_Close = ?close2] h2 by blast
  have "uploader_Complete ?close2 ?u
      = (Some \<lparr>types_ObjectAttrs.Object = ''a.txt'', Version = ''7'',
               ContentType = ''text/plain'', Size = 0, ETag = []\<rparr>, None)"
    using oa h2 f by (simp add: uploader_Complete_def mapAttrs_def del: digits_of.simps)
  with up c1 kept show ?thesis by simp
qed

section \<open>One client for each provider pointer\<close>

lemma mgr_ok_NewManager: "mgr_ok NewManager"
  by (simp add: mgr_ok_def NewManager_def)

lemma clientForProvider_cases:
  assumes "clientForProvider heap new_err mgr p = (Inr c, mgr')"
  shows "(clients mgr p = Some c \<and> mgr' = mgr)
       \<or> (clients mgr p = None \<and> c = length (built mgr)
            \<and> (\<exists>opts. mgr' = mgr\<lparr>built := built mgr @ [opts], clients := (clients mgr)(p \<mapsto> c)\<rparr>))"
  using assms
  by (auto simp: clientForProvider_def Let_def split: option.splits)

lemma mgr_ok_extend:
  assumes "mgr_ok mgr" "clients mgr p = None"
  shows "mgr_ok (mgr\<lparr>built := built mgr @ [opts],
                      clients := (clients mgr)(p \<mapsto> length (built mgr))\<rparr>)"
proof -
  from assms have fresh: "length (built mgr) \<notin> ran (clients mgr)"
    by (simp add: mgr_ok_def)
  have r: "ran ((clients mgr)(p \<mapsto> length (built mgr))) = insert (length (built mgr)) (ran (clients mgr))"
    using assms(2) by simp
  have i: "inj_on ((clients mgr)(p \<mapsto> length (built mgr))) (insert p (dom (clients mgr)))"
  proof (rule inj_onI)
    fix x y
    assume x: "x \<in> insert p (dom (clients mgr))" and y: "y \<in> insert p (dom (clients mgr))"
      and eq: "((clients mgr)(p \<mapsto> length (built mgr))) x = ((clients mgr)(p \<mapsto> length (built mgr))) y"
    show "x = y"
    proof (cases "x = p")
      case True
      show ?thesis
      proof (cases "y = p")
        case True
        with \<open>x = p\<close> show ?thesis by simp
      next
        case False
        with True eq have "clients mgr y = Some (length (built mgr))" by simp
        then have "length (built mgr) \<in> ran (clients mgr)" by (auto simp: ran_def)
        with fresh show ?thesis by simp
      qed
    next
      case False
      show ?thesis
      proof (cases "y = p")
        case True
        with False eq have "clients mgr x = Some (length (built mgr))" by simp
        then have "length (built mgr) \<in> ran (clients mgr)" by (auto simp: ran_def)
        with fresh show ?thesis by simp
      next
        case yp: False
        with False eq have "clients mgr x = clients mgr y" by simp
        moreover from False yp x y have "x \<in> dom (clients mgr)" "y \<in> dom (clients mgr)" by auto
        moreover from assms(1) have "inj_on (clients mgr) (dom (clients mgr))"
          by (simp add: mgr_ok_def)
        ultimately show ?thesis by (auto dest: inj_onD)
      qed
    qed
  qed
  from assms(1) have "ran (clients mgr) = {..<length (built mgr)}" by (simp add: mgr_ok_def)
  with r i show ?thesis by (auto simp: mgr_ok_def)
qed

lemma clientForProvider_step:
  assumes "mgr_ok mgr" "clientForProvider heap new_err mgr p = (Inr c, mgr')"
  shows "mgr_ok mgr' \<and> clients mgr' p = Some c \<and> map_le (clients mgr) (clients mgr')
     \<and> dom (clients mgr') = insert p (dom (clients mgr))"
  using clientForProvider_cases [OF assms(2)]
proof
  assume "clients mgr p = Some c \<and> mgr' = mgr"
  with assms(1) show ?thesis by (auto simp: map_le_def)
next
  assume a: "clients mgr p = None \<and> c = length (built mgr)
            \<and> (\<exists>opts. mgr' = mgr\<lparr>built := built mgr @ [opts], clients := (clients mgr)(p \<mapsto> c)\<rparr>)"
  then obtain opts where m: "mgr' = mgr\<lparr>built := built mgr @ [opts], clients := (clients mgr)(p \<mapsto> c)\<rparr>"
    by blast
  from a assms(1) have "mgr_ok mgr'" unfolding m by (simp add: mgr_ok_extend)
  moreover from a have "map_le (clients mgr) (clients mgr')"
    unfolding m by (auto simp: map_le_def)
  ultimately show ?thesis unfolding m by simp
qed

lemma NewBucket_Inr:
  "NewBucket heap new_err mgr p cfg = (Inr b, mgr')
     \<Longrightarrow> clientForProvider heap new_err mgr p = (Inr (b_client b), mgr')"
  by (auto simp: NewBucket_def split: prod.splits sum.splits option.splits)

lemma NewBucket_keeps_mgr_ok:
  assumes "mgr_ok mgr"
  shows "mgr_ok (snd (NewBucket heap new_err mgr p cfg))"
proof (cases "clientForProvider heap new_err mgr p")
  case (Pair res mgr')
  show ?thesis
  proof (cases res)
    case (Inl pn)
    with Pair have "mgr' = mgr"
      by (auto simp: clientForProvider_def Let_def split: option.splits)
    with Pair Inl assms show ?thesis by (simp add: NewBucket_def)
  next
    case (Inr c)
    with Pair clientForProvider_step [OF assms, of heap new_err p c mgr']
    have "mgr_ok mgr'" by simp
    with Pair Inr show ?thesis by (simp add: NewBucket_def split: option.splits)
  qed
qed

lemma NewBucket_seq_cache:
  "mgr_ok mgr \<Longrightarrow> NewBucket_seq heap new_err mgr cs = (Inr bs, mgr') \<Longrightarrow>
     mgr_ok mgr' \<and> length bs = length cs
     \<and> (\<forall>i<length cs. clients mgr' (fst (cs ! i)) = Some (b_client (bs ! i)))
     \<and> map_le (clients mgr) (clients mgr')
     \<and> dom (clients mgr') = dom (clients mgr) \<union> fst ` set cs"
proof (induction cs arbitrary: mgr bs)
  case Nil
  then show ?case by simp
next
  case (Cons call cs)
  obtain p cfg where call: "call = (p, cfg)" by (cases call)
  from Cons.prems(2) obtain b mgr1 bs' where
    nb: "NewBucket heap new_err mgr p cfg = (Inr b, mgr1)"
    and rest: "NewBucket_seq heap new_err mgr1 cs = (Inr bs', mgr')"
    and bs: "bs = b # bs'"
    unfolding call by (auto split: prod.splits sum.splits)
  from clientForProvider_step [OF Cons.prems(1) NewBucket_Inr [OF nb]]
  have s1: "mgr_ok mgr1" "clients mgr1 p = Some (b_client b)"
    "map_le (clients mgr) (clients mgr1)" "dom (clients mgr1) = insert p (dom (clients mgr))"
    by simp_all
  from Cons.IH [OF s1(1) rest]
  have ih: "mgr_ok mgr'" "length bs' = length cs"
    "\<forall>i<length cs. clients mgr' (fst (cs ! i)) = Some (b_client (bs' ! i))"
    "map_le (clients mgr1) (clients mgr')"
    "dom (clients mgr') = dom (clients mgr1) \<union> fst ` set cs"
    by simp_all
  from s1(2) ih(4) have p': "clients mgr' p = Some (b_client b)"
    by (auto simp: map_le_def dom_def)
  have all: "\<forall>i<length (call # cs). clients mgr' (fst ((call # cs) ! i)) = Some (b_client (bs ! i))"
  proof (intro allI impI)
    fix i assume "i < length (call # cs)"
    then show "clients mgr' (fst ((call # cs) ! i)) = Some (b_client (bs ! i))"
      using p' ih(3) by (cases i) (simp_all add: call bs)
  qed
  from s1(3) ih(4) have le: "map_le (clients mgr) (clients mgr')"
    by (rule map_le_trans)
  from s1(4) ih(5) have d: "dom (clients mgr') = dom (clients mgr) \<union> fst ` set (call # cs)"
    by (auto simp: call)
  from ih(1) ih(2) all le d show ?case by (simp add: bs)
qed

lemma mgr_ok_card: "mgr_ok mgr \<Longrightarrow> card (dom (clients mgr)) = length (built mgr)"
proof -
  assume ok: "mgr_ok mgr"
  have r: "ran (clients mgr) = the ` (clients mgr ` dom (clients mgr))"
    by (force simp: ran_def dom_def image_def)
  have "inj_on the (clients mgr ` dom (clients mgr))"
    by (rule inj_onI) (auto simp: dom_def)
  then have "card (the ` (clients mgr ` dom (clients mgr))) = card (clients mgr ` dom (clients mgr))"
    by (rule card_image)
  also have "\<dots> = card (dom (clients mgr))"
    using ok by (intro card_image) (simp add: mgr_ok_def)
  finally have "card (ran (clients mgr)) = card (dom (clients mgr))"
    using r by simp
  with ok show ?thesis by (simp add: mgr_ok_def)
qed

lemma mgr_ok_finite: "mgr_ok mgr \<Longrightarrow> finite (dom (clients mgr))"
proof -
  assume ok: "mgr_ok mgr"
  then have "finite (ran (clients mgr))" by (simp add: mgr_ok_def)
  moreover have "ran (clients mgr) = (\<lambda>p. the (clients mgr p)) ` dom (clients mgr)"
    by (force simp: ran_def dom_def image_def)
  moreover have "inj_on (\<lambda>p. the (clients mgr p)) (dom (clients mgr))"
  proof (rule inj_onI)
    fix x y assume "x \<in> dom (clients mgr)" "y \<in> dom (clients mgr)"
      "the (clients mgr x) = the (clients mgr y)"
    then have "clients mgr x = clients mgr y" by auto
    with ok \<open>x \<in> dom (clients mgr)\<close> \<open>y \<in> dom (clients mgr)\<close> show "x = y"
      by (auto simp: mgr_ok_def dest: inj_onD)
  qed
  ultimately show ?thesis by (simp add: finite_image_iff)
qed

text \<open>
  C5. Of the buckets that calls of \<open>NewBucket\<close> on one Manager return, two have the same
  client exactly when the two calls passed the same provider pointer; what the pointers
  point to plays no part. The Manager has built one client for each pointer in its cache,
  so the client of a pointer is built at most once.
\<close>

theorem one_client_per_provider_identity:
  assumes "mgr_ok mgr"
    and "NewBucket_seq heap new_err mgr cs = (Inr bs, mgr')"
    and "i < length cs" and "j < length cs"
  shows "(b_client (bs ! i) = b_client (bs ! j) \<longleftrightarrow> fst (cs ! i) = fst (cs ! j))
     \<and> length (built mgr') = length (built mgr) + card (fst ` set cs - dom (clients mgr))"
proof -
  from NewBucket_seq_cache [OF assms(1,2)]
  have ok: "mgr_ok mgr'"
    and cl: "\<forall>i<length cs. clients mgr' (fst (cs ! i)) = Some (b_client (bs ! i))"
    and d: "dom (clients mgr') = dom (clients mgr) \<union> fst ` set cs"
    by simp_all
  from cl assms(3,4) have ci: "clients mgr' (fst (cs ! i)) = Some (b_client (bs ! i))"
    and cj: "clients mgr' (fst (cs ! j)) = Some (b_client (bs ! j))" by simp_all
  from ok have inj: "inj_on (clients mgr') (dom (clients mgr'))" by (simp add: mgr_ok_def)
  have "b_client (bs ! i) = b_client (bs ! j) \<longleftrightarrow> fst (cs ! i) = fst (cs ! j)"
  proof
    assume "b_client (bs ! i) = b_client (bs ! j)"
    with ci cj have "clients mgr' (fst (cs ! i)) = clients mgr' (fst (cs ! j))" by simp
    moreover from ci cj have "fst (cs ! i) \<in> dom (clients mgr')" "fst (cs ! j) \<in> dom (clients mgr')"
      by auto
    ultimately show "fst (cs ! i) = fst (cs ! j)" using inj by (auto dest: inj_onD)
  next
    assume "fst (cs ! i) = fst (cs ! j)"
    with ci cj show "b_client (bs ! i) = b_client (bs ! j)" by simp
  qed
  moreover have "length (built mgr') = length (built mgr) + card (fst ` set cs - dom (clients mgr))"
  proof -
    have fin: "finite (dom (clients mgr))"
      using assms(1) by (rule mgr_ok_finite)
    have "card (dom (clients mgr) \<union> (fst ` set cs - dom (clients mgr)))
        = card (dom (clients mgr)) + card (fst ` set cs - dom (clients mgr))"
      using fin by (intro card_Un_disjoint) auto
    moreover have "dom (clients mgr') = dom (clients mgr) \<union> (fst ` set cs - dom (clients mgr))"
      using d by auto
    ultimately have "card (dom (clients mgr'))
        = card (dom (clients mgr)) + card (fst ` set cs - dom (clients mgr))"
      by simp
    with mgr_ok_card [OF ok] mgr_ok_card [OF assms(1)] show ?thesis by simp
  qed
  ultimately show ?thesis by simp
qed

theorem one_client_per_provider_identity_witness:
  "mgr_ok NewManager
   \<and> [1 \<mapsto> \<lparr>GCS = Some \<lparr>Anonymous = True, Endpoint = []\<rparr>\<rparr>,
       2 \<mapsto> \<lparr>GCS = Some \<lparr>Anonymous = True, Endpoint = []\<rparr>\<rparr>] (1::nat)
     = [1 \<mapsto> \<lparr>GCS = Some \<lparr>Anonymous = True, Endpoint = []\<rparr>\<rparr>,
        2 \<mapsto> \<lparr>GCS = Some \<lparr>Anonymous = True, Endpoint = []\<rparr>\<rparr>] (2::nat)
   \<and> map b_client
        (projr (fst (NewBucket_seq
           [1 \<mapsto> \<lparr>GCS = Some \<lparr>Anonymous = True, Endpoint = []\<rparr>\<rparr>,
            2 \<mapsto> \<lparr>GCS = Some \<lparr>Anonymous = True, Endpoint = []\<rparr>\<rparr>]
           (\<lambda>opts. None) NewManager
           [(1, Some \<lparr>CloudName = ''a''\<rparr>), (2, Some \<lparr>CloudName = ''b''\<rparr>),
            (1, Some \<lparr>CloudName = ''c''\<rparr>)])))
     = [0, 1, 0]
   \<and> length (built (snd (NewBucket_seq
           [1 \<mapsto> \<lparr>GCS = Some \<lparr>Anonymous = True, Endpoint = []\<rparr>\<rparr>,
            2 \<mapsto> \<lparr>GCS = Some \<lparr>Anonymous = True, Endpoint = []\<rparr>\<rparr>]
           (\<lambda>opts. None) NewManager
           [(1, Some \<lparr>CloudName = ''a''\<rparr>), (2, Some \<lparr>CloudName = ''b''\<rparr>),
            (1, Some \<lparr>CloudName = ''c''\<rparr>)]))) = 2"
proof -
  let ?heap = "[1 \<mapsto> \<lparr>GCS = Some \<lparr>Anonymous = True, Endpoint = []\<rparr>\<rparr>,
                2 \<mapsto> \<lparr>GCS = Some \<lparr>Anonymous = True, Endpoint = []\<rparr>\<rparr>] :: ptr \<rightharpoonup> BucketProvider"
  let ?ne = "\<lambda>opts :: ClientOption list. None :: string option"
  let ?cs = "[(1, Some \<lparr>CloudName = ''a''\<rparr>), (2, Some \<lparr>CloudName = ''b''\<rparr>),
            (1, Some \<lparr>CloudName = ''c''\<rparr>)] :: (ptr \<times> BucketCfg option) list"
  let ?bs = "[\<lparr>b_client = 0, b_cfg = \<lparr>CloudName = ''a''\<rparr>, b_handle = \<lparr>bh_name = ''a''\<rparr>\<rparr>,
              \<lparr>b_client = 1, b_cfg = \<lparr>CloudName = ''b''\<rparr>, b_handle = \<lparr>bh_name = ''b''\<rparr>\<rparr>,
              \<lparr>b_client = 0, b_cfg = \<lparr>CloudName = ''c''\<rparr>, b_handle = \<lparr>bh_name = ''c''\<rparr>\<rparr>]"
  have ok: "mgr_ok NewManager"
    by (simp add: mgr_ok_def NewManager_def)
  have run: "fst (NewBucket_seq ?heap ?ne NewManager ?cs) = Inr ?bs"
    by (simp add: NewBucket_def clientForProvider_def NewManager_def client_opts_def)
  then have run': "NewBucket_seq ?heap ?ne NewManager ?cs
      = (Inr ?bs, snd (NewBucket_seq ?heap ?ne NewManager ?cs))"
    by (metis prod.collapse)
  have i0: "(0::nat) < length ?cs" and i1: "(1::nat) < length ?cs" and i2: "(2::nat) < length ?cs"
    by simp_all
  have "length (built (snd (NewBucket_seq ?heap ?ne NewManager ?cs)))
      = length (built NewManager) + card (fst ` set ?cs - dom (clients NewManager))"
    using one_client_per_provider_identity [OF ok run' i0 i2] by blast
  moreover have "fst ` set ?cs - dom (clients NewManager) = {1, 2}"
    by (auto simp: NewManager_def)
  ultimately have n: "length (built (snd (NewBucket_seq ?heap ?ne NewManager ?cs))) = 2"
    by (simp add: NewManager_def)
  from ok run n show ?thesis by simp
qed

text \<open>
  C8. When \<open>storage.NewClient\<close> fails for a provider configuration, the first
  \<open>NewBucket\<close> for it (its pointer is not in the cache) panics with the error's message;
  it returns no bucket and no error value, and it leaves the Manager as it was, so every
  later \<open>NewBucket\<close> for the configuration panics the same way.
\<close>

theorem NewBucket_panics_on_client_failure:
  assumes "clients mgr prov = None"
    and "heap prov = Some p" and "GCS p = Some g"
    and "new_err (client_opts g) = Some err"
  shows "NewBucket heap new_err mgr prov cfg
     = (Inl (PanicMsg (''failed to create object storage client: '' @ err)), mgr)"
  using assms by (simp add: NewBucket_def clientForProvider_def)

theorem NewBucket_panics_on_client_failure_witness:
  "clients NewManager 1 = None
   \<and> NewBucket [1 \<mapsto> \<lparr>GCS = Some \<lparr>Anonymous = False, Endpoint = ''http://localhost:1''\<rparr>\<rparr>]
        (\<lambda>opts. if opts = [WithEndpoint ''http://localhost:1''] then Some ''dial failed'' else None)
        NewManager 1 (Some \<lparr>CloudName = ''a''\<rparr>)
     = (Inl (PanicMsg ''failed to create object storage client: dial failed''), NewManager)"
proof -
  let ?g = "\<lparr>Anonymous = False, Endpoint = ''http://localhost:1''\<rparr>"
  let ?heap = "[1 \<mapsto> \<lparr>GCS = Some ?g\<rparr>] :: ptr \<rightharpoonup> BucketProvider"
  let ?ne = "\<lambda>opts. if opts = [WithEndpoint ''http://localhost:1''] then Some ''dial failed'' else None"
  have h1: "clients NewManager 1 = None" by (simp add: NewManager_def)
  have h2: "?heap 1 = Some \<lparr>GCS = Some ?g\<rparr>" by simp
  have h3: "GCS \<lparr>GCS = Some ?g\<rparr> = Some ?g" by simp
  have h4: "?ne (client_opts ?g) = Some ''dial failed''" by (simp add: client_opts_def)
  show ?thesis
    using h1
      NewBucket_panics_on_client_failure [where mgr = NewManager and prov = 1 and heap = ?heap
        and p = "\<lparr>GCS = Some ?g\<rparr>" and g = ?g and new_err = ?ne and err = "''dial failed''"
        and cfg = "Some \<lparr>CloudName = ''a''\<rparr>", OF h1 h2 h3 h4]
    by simp
qed

section \<open>Listing under a limit\<close>






section \<open>Calls of NewBucket that overlap\<close>

lemma three_steps:
  assumes "i < length calls" "calls ! i = (prov, AtLookup)"
  shows "run_schedule heap new_err (i # i # i # sched) (calls, mgr)
     = (case clientForProvider heap new_err mgr prov of
          (Inr c, mgr') \<Rightarrow> run_schedule heap new_err sched (calls[i := (prov, Returned c)], mgr')
        | (Inl p, mgr') \<Rightarrow> run_schedule heap new_err sched (calls[i := (prov, Panicked p)], mgr'))"
  using assms
  by (auto simp: clientForProvider_def Let_def split: option.splits)

lemma serial_cached:
  "clients mgr prov = Some c \<Longrightarrow>
     run_schedule heap new_err (concat (map (\<lambda>i. [i, i, i]) [j..<j + k]))
       (replicate j (prov, Returned c) @ replicate k (prov, AtLookup), mgr)
     = (replicate (j + k) (prov, Returned c), mgr)"
proof (induction k arbitrary: j)
  case 0
  then show ?case by simp
next
  case (Suc k)
  let ?calls = "replicate j (prov, Returned c) @ replicate (Suc k) (prov, AtLookup)"
  have up: "[j..<j + Suc k] = j # [Suc j..<Suc j + k]"
    by (simp add: upt_conv_Cons)
  have i: "j < length ?calls" by simp
  have at: "?calls ! j = (prov, AtLookup)" by (simp add: nth_append)
  have cf: "clientForProvider heap new_err mgr prov = (Inr c, mgr)"
    using Suc.prems by (simp add: clientForProvider_def)
  have upd: "?calls[j := (prov, Returned c)]
      = replicate (Suc j) (prov, Returned c) @ replicate k (prov, AtLookup)"
    by (simp add: list_update_append replicate_append_same)
  have "run_schedule heap new_err (concat (map (\<lambda>i. [i, i, i]) [j..<j + Suc k])) (?calls, mgr)
      = run_schedule heap new_err (concat (map (\<lambda>i. [i, i, i]) [Suc j..<Suc j + k]))
          (?calls[j := (prov, Returned c)], mgr)"
    unfolding up using three_steps [OF i at, of heap new_err _ mgr] cf by simp
  also have "\<dots> = (replicate (Suc j + k) (prov, Returned c), mgr)"
    unfolding upd using Suc.IH [OF Suc.prems, of "Suc j"] by simp
  finally show ?case by simp
qed

text \<open>
  C6, as the code has it. Calls of \<open>NewBucket\<close> with one provider configuration that do
  not overlap, each doing its lookup, construction and store before the next begins, build
  exactly one client, and every call returns it.
\<close>

theorem serial_calls_build_one_client:
  assumes "clients mgr prov = None"
    and "heap prov = Some p" and "GCS p = Some g"
    and "new_err (client_opts g) = None"
    and "0 < n"
  shows "run_schedule heap new_err (serial_schedule n) (replicate n (prov, AtLookup), mgr)
     = (replicate n (prov, Returned (length (built mgr))),
        mgr\<lparr>built := built mgr @ [client_opts g],
            clients := (clients mgr)(prov \<mapsto> length (built mgr))\<rparr>)"
proof -
  from assms(5) obtain k where n: "n = Suc k" by (cases n) auto
  let ?c = "length (built mgr)"
  let ?mgr' = "mgr\<lparr>built := built mgr @ [client_opts g],
            clients := (clients mgr)(prov \<mapsto> length (built mgr))\<rparr>"
  let ?calls = "replicate (Suc k) (prov, AtLookup)"
  have up: "[0..<Suc k] = 0 # [Suc 0..<Suc 0 + k]"
    by (simp add: upt_conv_Cons)
  have i: "0 < length ?calls" by simp
  have at: "?calls ! 0 = (prov, AtLookup)" by simp
  have cf: "clientForProvider heap new_err mgr prov = (Inr ?c, ?mgr')"
    using assms(1-4) by (simp add: clientForProvider_def Let_def)
  have upd: "?calls[0 := (prov, Returned ?c)]
      = replicate (Suc 0) (prov, Returned ?c) @ replicate k (prov, AtLookup)"
    by simp
  have cached: "clients ?mgr' prov = Some ?c" by simp
  have "run_schedule heap new_err (serial_schedule (Suc k)) (?calls, mgr)
      = run_schedule heap new_err (concat (map (\<lambda>i. [i, i, i]) [Suc 0..<Suc 0 + k]))
          (?calls[0 := (prov, Returned ?c)], ?mgr')"
    unfolding serial_schedule_def up using three_steps [OF i at, of heap new_err _ mgr] cf
    by simp
  also have "\<dots> = (replicate (Suc 0 + k) (prov, Returned ?c), ?mgr')"
    unfolding upd using serial_cached [OF cached, of heap new_err "Suc 0" k] by simp
  finally show ?thesis by (simp add: n)
qed

theorem serial_calls_build_one_client_witness:
  "clients NewManager 1 = None
   \<and> 0 < (3::nat)
   \<and> fst (run_schedule [1 \<mapsto> \<lparr>GCS = Some \<lparr>Anonymous = True, Endpoint = []\<rparr>\<rparr>] (\<lambda>opts. None)
        (serial_schedule 3) (replicate 3 (1, AtLookup), NewManager))
     = [(1, Returned 0), (1, Returned 0), (1, Returned 0)]
   \<and> built (snd (run_schedule [1 \<mapsto> \<lparr>GCS = Some \<lparr>Anonymous = True, Endpoint = []\<rparr>\<rparr>]
        (\<lambda>opts. None) (serial_schedule 3) (replicate 3 (1, AtLookup), NewManager)))
     = [[WithoutAuthentication]]"
proof -
  let ?g = "\<lparr>Anonymous = True, Endpoint = []\<rparr>"
  let ?heap = "[1 \<mapsto> \<lparr>GCS = Some ?g\<rparr>] :: ptr \<rightharpoonup> BucketProvider"
  let ?ne = "\<lambda>opts :: ClientOption list. None :: string option"
  have h1: "clients NewManager 1 = None" by (simp add: NewManager_def)
  have h2: "?heap 1 = Some \<lparr>GCS = Some ?g\<rparr>" by simp
  have h3: "GCS \<lparr>GCS = Some ?g\<rparr> = Some ?g" by simp
  have h4: "?ne (client_opts ?g) = None" by simp
  have h5: "0 < (3::nat)" by simp
  show ?thesis
    using h1 h5
      serial_calls_build_one_client [where mgr = NewManager and prov = 1 and heap = ?heap
        and p = "\<lparr>GCS = Some ?g\<rparr>" and g = ?g and new_err = ?ne and n = 3,
        OF h1 h2 h3 h4 h5]
    by (simp add: NewManager_def client_opts_def numeral_3_eq_3)
qed

text \<open>
  The claim as stated fails: two calls for the same provider pointer that overlap, both
  looking the pointer up before either stores its client, build two clients, and the two
  buckets get different ones.
\<close>

theorem overlapping_calls_build_two_clients:
  "run_schedule [1 \<mapsto> \<lparr>GCS = Some \<lparr>Anonymous = True, Endpoint = []\<rparr>\<rparr>] (\<lambda>opts. None)
     [0, 1, 0, 1, 0, 1] ([(1, AtLookup), (1, AtLookup)], NewManager)
   = ([(1, Returned 0), (1, Returned 1)],
      \<lparr>clients = [1 \<mapsto> 1], built = [[WithoutAuthentication], [WithoutAuthentication]]\<rparr>)"
  by (simp add: NewManager_def client_opts_def)

end
